theory Spec2Isabelle
  imports Complex_Main "HOL-Library.Sublist" "HOL-Library.AList"
    "HOL-Library.Char_ord" "HOL-Library.List_Lexorder"
begin

section \<open>Python values and exceptions\<close>

text \<open>
  The harness is two Python scripts: \<^verbatim>\<open>build.py\<close> extracts the JSON prelude of every
  test source and persists it beside the compiled module, \<^verbatim>\<open>compat.py\<close> runs every
  module on five runtimes and compares the captured result with the persisted record.
  Python strings are modelled as \<^typ>\<open>string\<close>, exceptions as values of \<open>exn\<close>, and a
  function that may raise returns \<open>exn + 'a\<close> with \<open>Inl\<close> for the exception.
\<close>

datatype exn = AssertionError | TimeoutExpired | IndexError | TypeError | AttributeError
  | ValueError | OSError | CalledProcessError | KeyboardInterrupt

section \<open>build.py: extracting the prelude\<close>

text \<open>
  \<^verbatim>\<open>for line in f\<close> on a file opened in text mode yields the lines of the file, each with
  its terminating newline; only the last line may lack one. The content is the text as
  Python decodes it, line ends already translated to \<^verbatim>\<open>\n\<close>.
\<close>

fun file_lines :: "string \<Rightarrow> string list" where
  "file_lines [] = []"
| "file_lines (c # cs) =
     (if c = CHR 0x0A then [c] # file_lines cs
      else (case file_lines cs of [] \<Rightarrow> [[c]] | l # ls \<Rightarrow> (c # l) # ls))"

text \<open>
  \<^verbatim>\<open>s.split(sep)\<close>: the pieces of \<open>s\<close> between the occurrences of \<open>sep\<close>, found from the
  left without overlap. \<^verbatim>\<open>sep in s\<close> is \<open>str_contains sep s\<close>.
\<close>

fun str_split :: "string \<Rightarrow> string \<Rightarrow> string list" where
  "str_split sep [] = [[]]"
| "str_split sep (c # cs) =
     (if sep \<noteq> [] \<and> prefix sep (c # cs)
      then [] # str_split sep (drop (length sep) (c # cs))
      else (case str_split sep cs of [] \<Rightarrow> [[c]] | p # ps \<Rightarrow> (c # p) # ps))"

fun str_contains :: "string \<Rightarrow> string \<Rightarrow> bool" where
  "str_contains sep [] = (sep = [])"
| "str_contains sep (c # cs) = (prefix sep (c # cs) \<or> str_contains sep cs)"

text \<open>
  The loop of \<^verbatim>\<open>extract_prelude\<close>: a line equal to \<^verbatim>\<open>'\n'\<close> breaks, any other line
  contributes \<^verbatim>\<open>line.split('//')[1]\<close>, which raises \<^verbatim>\<open>IndexError\<close> when the line has no
  marker. The end of the file ends the loop like the break does.
\<close>

fun prelude_loop :: "string list \<Rightarrow> string \<Rightarrow> exn + string" where
  "prelude_loop [] prelude = Inr prelude"
| "prelude_loop (line # rest) prelude =
     (if line = [CHR 0x0A] then Inr prelude
      else (case str_split ''//'' line of
              _ # p # _ \<Rightarrow> prelude_loop rest (prelude @ p)
            | _ \<Rightarrow> Inl IndexError))"

definition extract_prelude :: "string \<Rightarrow> exn + string" where
  "extract_prelude content = prelude_loop (file_lines content) []"

text \<open>A header line: the marker, the remainder \<open>r\<close>, and the newline.\<close>

definition header_line :: "string \<Rightarrow> string" where
  "header_line r = ''//'' @ r @ [CHR 0x0A]"

section \<open>JSON values, \<^verbatim>\<open>json.dumps\<close> and \<^verbatim>\<open>json.loads\<close>\<close>

text \<open>
  What \<^verbatim>\<open>json.load\<close> returns: \<^verbatim>\<open>None\<close>, a boolean, an integer, a string, a list or a
  \<^verbatim>\<open>dict\<close> with string keys, which keeps its keys in the order of insertion. Numbers
  with a fraction or an exponent (Python floats) are left out. A record is such a
  \<^verbatim>\<open>dict\<close>; \<open>dict_get d k x\<close> is \<^verbatim>\<open>d.get(k, x)\<close> and \<open>dict_set d k v\<close> is \<^verbatim>\<open>d[k] = v\<close>.
\<close>

datatype json = JNull | JBool bool | JInt int | JStr string | JArr "json list"
  | JObj "(string \<times> json) list"

type_synonym dict = "(string \<times> json) list"

definition dict_get :: "dict \<Rightarrow> string \<Rightarrow> json \<Rightarrow> json" where
  "dict_get d k dflt = (case map_of d k of None \<Rightarrow> dflt | Some v \<Rightarrow> v)"

definition dict_set :: "dict \<Rightarrow> string \<Rightarrow> json \<Rightarrow> dict" where
  "dict_set d k v = AList.update k v d"

text \<open>
  \<^verbatim>\<open>sort_keys=True\<close> prints the items of every \<^verbatim>\<open>dict\<close> in the order of their keys.
\<close>

fun sort_deep :: "json \<Rightarrow> json" where
  "sort_deep (JArr xs) = JArr (map sort_deep xs)"
| "sort_deep (JObj kvs) = JObj (sort_key fst (map (\<lambda>(k, v). (k, sort_deep v)) kvs))"
| "sort_deep v = v"

text \<open>The decimal digits of an integer, as \<^verbatim>\<open>int.__repr__\<close> prints them.\<close>

definition digit_char :: "nat \<Rightarrow> char" where
  "digit_char n = char_of (48 + n)"

fun show_nat :: "nat \<Rightarrow> string" where
  "show_nat n = (if n < 10 then [digit_char n] else show_nat (n div 10) @ [digit_char (n mod 10)])"

declare show_nat.simps [simp del]

definition show_int :: "int \<Rightarrow> string" where
  "show_int i = (if i < 0 then CHR ''-'' # show_nat (nat (- i)) else show_nat (nat i))"

text \<open>
  Strings are printed with \<^verbatim>\<open>ensure_ascii\<close>: the quote, the backslash and the
  characters outside the printable ASCII range are escaped, the rest is copied.
\<close>

definition hex_char :: "nat \<Rightarrow> char" where
  "hex_char n = (if n < 10 then char_of (48 + n) else char_of (87 + n))"

definition escape_char :: "char \<Rightarrow> string" where
  "escape_char c =
     (if c = CHR 0x5C then [CHR 0x5C, CHR 0x5C]
      else if c = CHR 0x22 then [CHR 0x5C, CHR 0x22]
      else if c = CHR 0x08 then [CHR 0x5C, CHR ''b'']
      else if c = CHR 0x0C then [CHR 0x5C, CHR ''f'']
      else if c = CHR 0x0A then [CHR 0x5C, CHR ''n'']
      else if c = CHR 0x0D then [CHR 0x5C, CHR ''r'']
      else if c = CHR 0x09 then [CHR 0x5C, CHR ''t'']
      else if 0x20 \<le> (of_char c :: nat) \<and> (of_char c :: nat) \<le> 0x7E then [c]
      else [CHR 0x5C, CHR ''u'', CHR ''0'', CHR ''0'',
            hex_char ((of_char c :: nat) div 16), hex_char ((of_char c :: nat) mod 16)])"

definition encode_str :: "string \<Rightarrow> string" where
  "encode_str s = CHR 0x22 # concat (map escape_char s) @ [CHR 0x22]"

text \<open>
  The encoder. With \<^verbatim>\<open>indent=None\<close> the items are separated by \<^verbatim>\<open>', '\<close>; with
  \<^verbatim>\<open>indent=n\<close> by a comma and a new line indented by \<open>n\<close> spaces per level, and the
  brackets of a non-empty container stand on lines of their own. The key separator is
  \<^verbatim>\<open>': '\<close> in both cases.
\<close>

definition newline_indent :: "nat option \<Rightarrow> nat \<Rightarrow> string" where
  "newline_indent ind lvl = (case ind of None \<Rightarrow> [] | Some n \<Rightarrow> CHR 0x0A # replicate (n * lvl) CHR '' '')"

definition item_separator :: "nat option \<Rightarrow> nat \<Rightarrow> string" where
  "item_separator ind lvl = (case ind of None \<Rightarrow> '', '' | Some n \<Rightarrow> '','' @ newline_indent ind lvl)"

fun intercalate :: "'a list \<Rightarrow> 'a list list \<Rightarrow> 'a list" where
  "intercalate sep [] = []"
| "intercalate sep [x] = x"
| "intercalate sep (x # y # ys) = x @ sep @ intercalate sep (y # ys)"

fun iterencode :: "nat option \<Rightarrow> nat \<Rightarrow> json \<Rightarrow> string" where
  "iterencode ind lvl JNull = ''null''"
| "iterencode ind lvl (JBool b) = (if b then ''true'' else ''false'')"
| "iterencode ind lvl (JInt i) = show_int i"
| "iterencode ind lvl (JStr s) = encode_str s"
| "iterencode ind lvl (JArr xs) =
     (if xs = [] then ''[]''
      else ''['' @ newline_indent ind (lvl + 1)
        @ intercalate (item_separator ind (lvl + 1)) (map (iterencode ind (lvl + 1)) xs)
        @ newline_indent ind lvl @ '']'')"
| "iterencode ind lvl (JObj kvs) =
     (if kvs = [] then ''{}''
      else ''{'' @ newline_indent ind (lvl + 1)
        @ intercalate (item_separator ind (lvl + 1))
            (map (\<lambda>(k, v). encode_str k @ '': '' @ iterencode ind (lvl + 1) v) kvs)
        @ newline_indent ind lvl @ ''}'')"

definition json_dumps :: "nat option \<Rightarrow> bool \<Rightarrow> json \<Rightarrow> string" where
  "json_dumps ind sort_keys v = iterencode ind 0 (if sort_keys then sort_deep v else v)"

text \<open>
  The decoder. \<open>scanstring\<close> reads a string after its opening quote (strict: no raw
  control character); an escape \<^verbatim>\<open>\uXXXX\<close> beyond the 8-bit characters of \<^typ>\<open>string\<close>
  is not decoded. \<open>match_number\<close> reads an integer literal and gives up on a float.
  \<open>scan_once\<close>, \<open>parse_array\<close> and \<open>parse_object\<close> follow the recursive descent of
  \<^verbatim>\<open>json.scanner\<close> and \<^verbatim>\<open>json.decoder\<close>; their first argument bounds the depth of the
  recursion, and \<open>json_loads\<close> starts it with the length of the text (every level of
  nesting takes a character of it). \<open>None\<close> is a \<^verbatim>\<open>JSONDecodeError\<close>.
\<close>

definition is_ws :: "char \<Rightarrow> bool" where
  "is_ws c = (c = CHR '' '' \<or> c = CHR 0x09 \<or> c = CHR 0x0A \<or> c = CHR 0x0D)"

definition skip_ws :: "string \<Rightarrow> string" where
  "skip_ws s = dropWhile is_ws s"

definition hex_val :: "char \<Rightarrow> nat option" where
  "hex_val c =
     (let n = (of_char c :: nat) in
      if 48 \<le> n \<and> n \<le> 57 then Some (n - 48)
      else if 97 \<le> n \<and> n \<le> 102 then Some (n - 87)
      else if 65 \<le> n \<and> n \<le> 70 then Some (n - 55)
      else None)"

definition decode_uXXXX :: "char \<Rightarrow> char \<Rightarrow> char \<Rightarrow> char \<Rightarrow> char option" where
  "decode_uXXXX h1 h2 h3 h4 =
     (case (hex_val h1, hex_val h2, hex_val h3, hex_val h4) of
        (Some a, Some b, Some c, Some d) \<Rightarrow>
          (let n = ((a * 16 + b) * 16 + c) * 16 + d in if n < 256 then Some (char_of n) else None)
      | _ \<Rightarrow> None)"

definition backslash :: "char \<Rightarrow> char option" where
  "backslash e =
     (if e = CHR 0x22 then Some (CHR 0x22)
      else if e = CHR 0x5C then Some (CHR 0x5C)
      else if e = CHR ''/'' then Some (CHR ''/'')
      else if e = CHR ''b'' then Some (CHR 0x08)
      else if e = CHR ''f'' then Some (CHR 0x0C)
      else if e = CHR ''n'' then Some (CHR 0x0A)
      else if e = CHR ''r'' then Some (CHR 0x0D)
      else if e = CHR ''t'' then Some (CHR 0x09)
      else None)"

fun scanstring :: "string \<Rightarrow> (string \<times> string) option" where
  "scanstring [] = None"
| "scanstring (c # cs) =
     (if c = CHR 0x22 then Some ([], cs)
      else if c = CHR 0x5C then
        (case cs of
           [] \<Rightarrow> None
         | e # cs' \<Rightarrow>
             if e = CHR ''u'' then
               (case cs' of
                  h1 # h2 # h3 # h4 # cs'' \<Rightarrow>
                    (case decode_uXXXX h1 h2 h3 h4 of
                       None \<Rightarrow> None
                     | Some ch \<Rightarrow>
                         (case scanstring cs'' of None \<Rightarrow> None | Some (s, r) \<Rightarrow> Some (ch # s, r)))
                | _ \<Rightarrow> None)
             else
               (case backslash e of
                  None \<Rightarrow> None
                | Some ch \<Rightarrow>
                    (case scanstring cs' of None \<Rightarrow> None | Some (s, r) \<Rightarrow> Some (ch # s, r))))
      else if (of_char c :: nat) < 0x20 then None
      else (case scanstring cs of None \<Rightarrow> None | Some (s, r) \<Rightarrow> Some (c # s, r)))"

definition is_digit :: "char \<Rightarrow> bool" where
  "is_digit c = (48 \<le> (of_char c :: nat) \<and> (of_char c :: nat) \<le> 57)"

definition nat_of_digits :: "string \<Rightarrow> nat" where
  "nat_of_digits ds = foldl (\<lambda>n c. 10 * n + ((of_char c :: nat) - 48)) 0 ds"

definition float_tail :: "string \<Rightarrow> bool" where
  "float_tail r =
     (case r of
        [] \<Rightarrow> False
      | c # cs \<Rightarrow>
          if c = CHR ''.'' then (case cs of [] \<Rightarrow> False | d # _ \<Rightarrow> is_digit d)
          else if c = CHR ''e'' \<or> c = CHR ''E'' then
            (case cs of
               [] \<Rightarrow> False
             | d # ds \<Rightarrow>
                 if d = CHR ''+'' \<or> d = CHR ''-'' then (case ds of [] \<Rightarrow> False | d' # _ \<Rightarrow> is_digit d')
                 else is_digit d)
          else False)"

definition match_number :: "string \<Rightarrow> (json \<times> string) option" where
  "match_number s =
     (let neg = (s \<noteq> [] \<and> hd s = CHR ''-'');
          s1 = (if neg then tl s else s)
      in case s1 of
           [] \<Rightarrow> None
         | c # cs \<Rightarrow>
             if \<not> is_digit c then None
             else
               let ds = (if c = CHR ''0'' then [c] else takeWhile is_digit s1);
                   r = drop (length ds) s1
               in if float_tail r then None
                  else Some (JInt (if neg then - int (nat_of_digits ds) else int (nat_of_digits ds)), r))"

definition dict_of_pairs :: "(string \<times> json) list \<Rightarrow> dict" where
  "dict_of_pairs kvs = foldl (\<lambda>d (k, v). dict_set d k v) [] kvs"

fun scan_once :: "nat \<Rightarrow> string \<Rightarrow> (json \<times> string) option"
  and parse_array :: "nat \<Rightarrow> string \<Rightarrow> (json list \<times> string) option"
  and parse_object :: "nat \<Rightarrow> string \<Rightarrow> ((string \<times> json) list \<times> string) option"
where
  "scan_once 0 s = None"
| "scan_once (Suc n) s =
     (case s of
        [] \<Rightarrow> None
      | c # cs \<Rightarrow>
          if c = CHR 0x22 then
            (case scanstring cs of None \<Rightarrow> None | Some (t, r) \<Rightarrow> Some (JStr t, r))
          else if c = CHR ''{'' then
            (case skip_ws cs of
               [] \<Rightarrow> None
             | c' # r \<Rightarrow>
                 if c' = CHR ''}'' then Some (JObj [], r)
                 else (case parse_object n (c' # r) of
                         None \<Rightarrow> None
                       | Some (kvs, r') \<Rightarrow> Some (JObj (dict_of_pairs kvs), r')))
          else if c = CHR ''['' then
            (case skip_ws cs of
               [] \<Rightarrow> None
             | c' # r \<Rightarrow>
                 if c' = CHR '']'' then Some (JArr [], r)
                 else (case parse_array n (c' # r) of
                         None \<Rightarrow> None
                       | Some (vs, r') \<Rightarrow> Some (JArr vs, r')))
          else if prefix ''null'' s then Some (JNull, drop 4 s)
          else if prefix ''true'' s then Some (JBool True, drop 4 s)
          else if prefix ''false'' s then Some (JBool False, drop 5 s)
          else match_number s)"
| "parse_array 0 s = None"
| "parse_array (Suc n) s =
     (case scan_once n s of
        None \<Rightarrow> None
      | Some (v, r) \<Rightarrow>
          (case skip_ws r of
             [] \<Rightarrow> None
           | c # r' \<Rightarrow>
               if c = CHR '']'' then Some ([v], r')
               else if c = CHR '','' then
                 (case parse_array n (skip_ws r') of
                    None \<Rightarrow> None
                  | Some (vs, r'') \<Rightarrow> Some (v # vs, r''))
               else None))"
| "parse_object 0 s = None"
| "parse_object (Suc n) s =
     (case s of
        [] \<Rightarrow> None
      | q # cs \<Rightarrow>
          if q \<noteq> CHR 0x22 then None
          else
            (case scanstring cs of
               None \<Rightarrow> None
             | Some (k, r) \<Rightarrow>
                 (case skip_ws r of
                    [] \<Rightarrow> None
                  | c # r1 \<Rightarrow>
                      if c \<noteq> CHR '':'' then None
                      else
                        (case scan_once n (skip_ws r1) of
                           None \<Rightarrow> None
                         | Some (v, r2) \<Rightarrow>
                             (case skip_ws r2 of
                                [] \<Rightarrow> None
                              | c' # r3 \<Rightarrow>
                                  if c' = CHR ''}'' then Some ([(k, v)], r3)
                                  else if c' = CHR '','' then
                                    (case parse_object n (skip_ws r3) of
                                       None \<Rightarrow> None
                                     | Some (kvs, r4) \<Rightarrow> Some ((k, v) # kvs, r4))
                                  else None)))))"

definition json_loads :: "string \<Rightarrow> json option" where
  "json_loads s =
     (case scan_once (length s) (skip_ws s) of
        None \<Rightarrow> None
      | Some (v, r) \<Rightarrow> if skip_ws r = [] then Some v else None)"

text \<open>
  A Python \<^verbatim>\<open>dict\<close> holds every key once: the values the code works on are the
  \<open>wf_json\<close> ones. \<open>jsize\<close> counts the values nested in a value.
\<close>

fun wf_json :: "json \<Rightarrow> bool" where
  "wf_json (JArr xs) = (\<forall>x \<in> set xs. wf_json x)"
| "wf_json (JObj kvs) = (distinct (map fst kvs) \<and> (\<forall>kv \<in> set kvs. wf_json (snd kv)))"
| "wf_json v = True"

fun jsize :: "json \<Rightarrow> nat" where
  "jsize (JArr xs) = Suc (sum_list (map (\<lambda>x. Suc (jsize x)) xs))"
| "jsize (JObj kvs) = Suc (sum_list (map (\<lambda>kv. Suc (jsize (snd kv))) kvs))"
| "jsize v = 1"



text \<open>
  What may follow a value in a text: nothing, a comma, a closing bracket, or white space.
\<close>

definition value_end :: "string \<Rightarrow> bool" where
  "value_end s =
     (s = [] \<or> hd s = CHR '','' \<or> hd s = CHR '']'' \<or> hd s = CHR ''}'' \<or> is_ws (hd s))"

text \<open>How the text of a value starts: with a character that is no white space and closes nothing.\<close>

definition value_start :: "string \<Rightarrow> bool" where
  "value_start s = (s \<noteq> [] \<and> \<not> is_ws (hd s) \<and> hd s \<noteq> CHR '']'' \<and> hd s \<noteq> CHR ''}'')"

section \<open>compat.py: paths\<close>

text \<open>
  The functions of \<^verbatim>\<open>os.path\<close> (POSIX flavour) that the harness calls, on strings.
\<close>

definition path_join2 :: "string \<Rightarrow> string \<Rightarrow> string" where
  "path_join2 path b =
     (if prefix ''/'' b then b
      else if path = [] \<or> suffix ''/'' path then path @ b
      else path @ ''/'' @ b)"

definition path_join :: "string \<Rightarrow> string list \<Rightarrow> string" where
  "path_join a ps = foldl path_join2 a ps"

definition basename :: "string \<Rightarrow> string" where
  "basename p = rev (takeWhile (\<lambda>c. c \<noteq> CHR ''/'') (rev p))"

definition dirname :: "string \<Rightarrow> string" where
  "dirname p =
     (let head = take (length p - length (basename p)) p
      in if head \<noteq> [] \<and> head \<noteq> replicate (length head) CHR ''/''
         then rev (dropWhile (\<lambda>c. c = CHR ''/'') (rev head))
         else head)"

definition splitext :: "string \<Rightarrow> string \<times> string" where
  "splitext p =
     (let fname = basename p;
          rest = dropWhile (\<lambda>c. c = CHR ''.'') fname
      in if CHR ''.'' \<in> set rest
         then (let ext = rev (takeWhile (\<lambda>c. c \<noteq> CHR ''.'') (rev rest));
                   k = length p - Suc (length ext)
               in (take k p, drop k p))
         else (p, []))"

fun norm_comps :: "bool \<Rightarrow> string list \<Rightarrow> string list \<Rightarrow> string list" where
  "norm_comps initial_slashes [] new_comps = new_comps"
| "norm_comps initial_slashes (part # comps) new_comps =
     (if part = [] \<or> part = ''.'' then norm_comps initial_slashes comps new_comps
      else if part \<noteq> ''..'' \<or> (\<not> initial_slashes \<and> new_comps = [])
              \<or> (new_comps \<noteq> [] \<and> last new_comps = ''..'')
        then norm_comps initial_slashes comps (new_comps @ [part])
      else if new_comps \<noteq> [] then norm_comps initial_slashes comps (butlast new_comps)
      else norm_comps initial_slashes comps new_comps)"

definition normpath :: "string \<Rightarrow> string" where
  "normpath p =
     (if p = [] then ''.''
      else
        let initial_slashes =
              (if prefix ''/'' p then (if prefix ''//'' p \<and> \<not> prefix ''///'' p then 2 else 1)
               else (0::nat));
            comps = norm_comps (initial_slashes \<noteq> 0) (str_split ''/'' p) [];
            path = replicate initial_slashes CHR ''/'' @ intercalate ''/'' comps
        in if path = [] then ''.'' else path)"

section \<open>compat.py: the environment of the harness\<close>

text \<open>
  What a started program does, as far as \<^verbatim>\<open>subprocess\<close> can tell: the call raises
  (the program cannot be started, its output is not UTF-8), the program exits after some
  seconds with its captured output and exit status, or it never exits.
\<close>

record completed =
  stdout :: string
  stderr :: string
  returncode :: int

datatype behaviour = Fails exn | Exits rat completed | Hangs

text \<open>
  Everything outside the two scripts that they consult: the current directory, the file
  system calls and the programs they start. \<open>proc w cmd cwd input\<close> is the behaviour of
  the command \<open>cmd\<close> started in directory \<open>cwd\<close> (\<open>None\<close>: the harness's own) with the
  text \<open>input\<close> on its standard input. \<open>write_text w path\<close> is the exception of
  \<^verbatim>\<open>open(path, 'w')\<close> and the write, if any; \<open>mkdtemp w n\<close> and \<open>rmtree_mkdir w n path\<close>
  are the outcomes of the \<open>n\<close>-th call of \<^verbatim>\<open>tempfile.mkdtemp()\<close> and of
  \<^verbatim>\<open>ensure_empty_dir(path)\<close>.
\<close>

record world =
  getcwd :: string
  glob :: "string \<Rightarrow> bool \<Rightarrow> string list"
  read_text :: "string \<Rightarrow> exn + string"
  write_text :: "string \<Rightarrow> exn option"
  mkdtemp :: "nat \<Rightarrow> exn + string"
  copytree :: "string \<Rightarrow> string \<Rightarrow> exn option"
  rmtree_mkdir :: "nat \<Rightarrow> string \<Rightarrow> exn option"
  proc :: "string list \<Rightarrow> string option \<Rightarrow> string option \<Rightarrow> behaviour"

definition abspath :: "world \<Rightarrow> string \<Rightarrow> string" where
  "abspath w p = normpath (if prefix ''/'' p then p else path_join2 (getcwd w) p)"

text \<open>
  \<^verbatim>\<open>subprocess.run(cmd, cwd=cwd, encoding='utf8', input=..., timeout=..., capture_output=True)\<close>.
  A timeout of \<^verbatim>\<open>None\<close> waits without limit, so the call returns no value (\<open>None\<close>) when
  the program never exits; with a number of seconds the program is killed at the deadline
  and \<^verbatim>\<open>TimeoutExpired\<close> is raised. A timeout that is no number is a \<^verbatim>\<open>TypeError\<close>
  (from \<^verbatim>\<open>_time() + timeout\<close>), an input that is no string an \<^verbatim>\<open>AttributeError\<close>
  (from \<^verbatim>\<open>input.encode\<close>). When several failures apply, the order of the checks below
  decides which exception it is; the harness treats them alike.
\<close>

fun timeout_arg :: "json \<Rightarrow> exn + int option" where
  "timeout_arg JNull = Inr None"
| "timeout_arg (JInt t) = Inr (Some t)"
| "timeout_arg (JBool b) = Inr (Some (if b then 1 else 0))"
| "timeout_arg _ = Inl TypeError"

fun input_arg :: "json \<Rightarrow> exn + string option" where
  "input_arg JNull = Inr None"
| "input_arg (JStr s) = Inr (Some s)"
| "input_arg _ = Inl AttributeError"

definition subprocess_run ::
  "world \<Rightarrow> string list \<Rightarrow> string \<Rightarrow> json \<Rightarrow> json \<Rightarrow> (exn + completed) option" where
  "subprocess_run w cmd cwd input timeout =
     (case timeout_arg timeout of
        Inl e \<Rightarrow> Some (Inl e)
      | Inr t \<Rightarrow>
          (case input_arg input of
             Inl e \<Rightarrow> Some (Inl e)
           | Inr i \<Rightarrow>
               (case proc w cmd (Some cwd) i of
                  Fails e \<Rightarrow> Some (Inl e)
                | Exits d r \<Rightarrow>
                    (case t of
                       None \<Rightarrow> Some (Inr r)
                     | Some secs \<Rightarrow>
                         if d \<le> of_int secs then Some (Inr r) else Some (Inl TimeoutExpired))
                | Hangs \<Rightarrow>
                    (case t of None \<Rightarrow> None | Some secs \<Rightarrow> Some (Inl TimeoutExpired)))))"

text \<open>
  \<^verbatim>\<open>subprocess.check_call(cmd, encoding='utf8')\<close>: no working directory, no input, no
  timeout; a non-zero exit status raises \<^verbatim>\<open>CalledProcessError\<close>.
\<close>

definition check_call :: "world \<Rightarrow> string list \<Rightarrow> (exn + unit) option" where
  "check_call w cmd =
     (case proc w cmd None None of
        Fails e \<Rightarrow> Some (Inl e)
      | Exits d r \<Rightarrow> if returncode r = 0 then Some (Inr ()) else Some (Inl CalledProcessError)
      | Hangs \<Rightarrow> None)"

section \<open>compat.py: grading\<close>

text \<open>
  Python's \<^verbatim>\<open>==\<close> between a captured string or exit status and a value of the record.
  A string equals only an equal string; an integer equals an equal integer, and the
  booleans as 1 and 0.
\<close>

fun str_eq :: "string \<Rightarrow> json \<Rightarrow> bool" where
  "str_eq s (JStr t) = (s = t)"
| "str_eq s _ = False"

fun int_eq :: "int \<Rightarrow> json \<Rightarrow> bool" where
  "int_eq n (JInt m) = (n = m)"
| "int_eq n (JBool b) = (n = (if b then 1 else 0))"
| "int_eq n _ = False"

definition assert_result :: "completed \<Rightarrow> dict \<Rightarrow> exn + unit" where
  "assert_result actual expected =
     (if \<not> str_eq (stdout actual) (dict_get expected ''stdout'' (JStr [])) then Inl AssertionError
      else if \<not> str_eq (stderr actual) (dict_get expected ''stderr'' (JStr [])) then Inl AssertionError
      else if \<not> int_eq (returncode actual) (dict_get expected ''exitCode'' (JInt 0))
        then Inl AssertionError
      else Inr ())"

definition test :: "world \<Rightarrow> string list \<Rightarrow> dict \<Rightarrow> string \<Rightarrow> (exn + unit) option" where
  "test w cmd config cwd =
     (case subprocess_run w cmd cwd (dict_get config ''stdin'' JNull)
             (dict_get config ''timeout'' (JInt 5)) of
        None \<Rightarrow> None
      | Some (Inl e) \<Rightarrow> Some (Inl e)
      | Some (Inr result) \<Rightarrow> Some (assert_result result config))"

section \<open>compat.py: the five adapters\<close>

text \<open>
  The loops over \<^verbatim>\<open>env\<close> and \<^verbatim>\<open>preopens\<close>: two command words per key, the second
  \<^verbatim>\<open>key + sep + d[key]\<close>, a \<^verbatim>\<open>TypeError\<close> unless the value is a string. The guard is
  \<^verbatim>\<open>!= None\<close> only, so a value that is no mapping is iterated as Python iterates it: an
  empty list or string adds nothing, anything else ends in a \<^verbatim>\<open>TypeError\<close>.
\<close>

fun kv_flags :: "string \<Rightarrow> string \<Rightarrow> (string \<times> json) list \<Rightarrow> exn + string list" where
  "kv_flags flag sep [] = Inr []"
| "kv_flags flag sep ((k, v) # kvs) =
     (case v of
        JStr s \<Rightarrow>
          (case kv_flags flag sep kvs of
             Inl e \<Rightarrow> Inl e
           | Inr fs \<Rightarrow> Inr (flag # (k @ sep @ s) # fs))
      | _ \<Rightarrow> Inl TypeError)"

fun mapping_flags :: "string \<Rightarrow> string \<Rightarrow> json \<Rightarrow> exn + string list" where
  "mapping_flags flag sep JNull = Inr []"
| "mapping_flags flag sep (JObj kvs) = kv_flags flag sep kvs"
| "mapping_flags flag sep (JArr xs) = (if xs = [] then Inr [] else Inl TypeError)"
| "mapping_flags flag sep (JStr s) = (if s = [] then Inr [] else Inl TypeError)"
| "mapping_flags flag sep _ = Inl TypeError"

text \<open>
  \<^verbatim>\<open>for arg in args: cmd.append(arg)\<close>. A list gives its elements, a string its
  characters, a mapping its keys; a command word that is no string makes
  \<^verbatim>\<open>subprocess.run\<close> raise \<^verbatim>\<open>TypeError\<close> before any program starts.
\<close>

fun arg_strings :: "json list \<Rightarrow> exn + string list" where
  "arg_strings [] = Inr []"
| "arg_strings (v # vs) =
     (case v of
        JStr s \<Rightarrow> (case arg_strings vs of Inl e \<Rightarrow> Inl e | Inr ss \<Rightarrow> Inr (s # ss))
      | _ \<Rightarrow> Inl TypeError)"

fun arg_words :: "json \<Rightarrow> exn + string list" where
  "arg_words (JArr xs) = arg_strings xs"
| "arg_words (JStr s) = Inr (map (\<lambda>c. [c]) s)"
| "arg_words (JObj kvs) = Inr (map fst kvs)"
| "arg_words _ = Inl TypeError"

definition wasmer_cmd :: "string \<Rightarrow> dict \<Rightarrow> exn + string list" where
  "wasmer_cmd filepath config =
     (case mapping_flags ''--env'' ''='' (dict_get config ''env'' JNull) of
        Inl e \<Rightarrow> Inl e
      | Inr env \<Rightarrow>
          (case mapping_flags ''--mapdir'' '':'' (dict_get config ''preopens'' JNull) of
             Inl e \<Rightarrow> Inl e
           | Inr preopens \<Rightarrow>
               (case dict_get config ''args'' JNull of
                  JNull \<Rightarrow> Inr ([''wasmer'', ''run'', filepath] @ env @ preopens)
                | args \<Rightarrow>
                    (case arg_words args of
                       Inl e \<Rightarrow> Inl e
                     | Inr ws \<Rightarrow>
                         Inr ([''wasmer'', ''run'', filepath] @ env @ preopens @ [''--''] @ ws)))))"

definition wasmtime_cmd :: "string \<Rightarrow> dict \<Rightarrow> exn + string list" where
  "wasmtime_cmd filepath config =
     (case mapping_flags ''--env'' ''='' (dict_get config ''env'' JNull) of
        Inl e \<Rightarrow> Inl e
      | Inr env \<Rightarrow>
          (case mapping_flags ''--mapdir'' ''::'' (dict_get config ''preopens'' JNull) of
             Inl e \<Rightarrow> Inl e
           | Inr preopens \<Rightarrow>
               (case dict_get config ''args'' JNull of
                  JNull \<Rightarrow> Inr ([''wasmtime'', ''run''] @ env @ preopens @ [filepath])
                | args \<Rightarrow>
                    (case arg_words args of
                       Inl e \<Rightarrow> Inl e
                     | Inr ws \<Rightarrow>
                         Inr ([''wasmtime'', ''run''] @ env @ preopens @ [filepath] @ [''--''] @ ws)))))"

definition wasmedge_cmd :: "string \<Rightarrow> dict \<Rightarrow> exn + string list" where
  "wasmedge_cmd so config =
     (case mapping_flags ''--env'' ''='' (dict_get config ''env'' JNull) of
        Inl e \<Rightarrow> Inl e
      | Inr env \<Rightarrow>
          (case mapping_flags ''--dir'' '':'' (dict_get config ''preopens'' JNull) of
             Inl e \<Rightarrow> Inl e
           | Inr preopens \<Rightarrow>
               (case dict_get config ''args'' JNull of
                  JNull \<Rightarrow> Inr ([''wasmedge''] @ env @ preopens @ [so])
                | args \<Rightarrow>
                    (case arg_words args of
                       Inl e \<Rightarrow> Inl e
                     | Inr ws \<Rightarrow> Inr ([''wasmedge''] @ env @ preopens @ [so] @ ws)))))"

text \<open>
  The two adapters with a glue program fill in \<^verbatim>\<open>env\<close> and \<^verbatim>\<open>args\<close> in the record
  itself: \<^verbatim>\<open>if config.get('env') == None: config['env'] = {}\<close>, and the same for
  \<^verbatim>\<open>args\<close> with \<^verbatim>\<open>[]\<close>.
\<close>

definition set_defaults :: "dict \<Rightarrow> dict" where
  "set_defaults config =
     (let c1 = (if dict_get config ''env'' JNull = JNull then dict_set config ''env'' (JObj [])
                else config)
      in if dict_get c1 ''args'' JNull = JNull then dict_set c1 ''args'' (JArr []) else c1)"

definition deno_cmd :: "world \<Rightarrow> string \<Rightarrow> dict \<Rightarrow> string list" where
  "deno_cmd w filepath config =
     [''deno'', ''run'', ''--quiet'', ''--allow-all'', ''--unstable'', abspath w ''.deno.ts'',
      json_dumps None False (JObj config), filepath]"

definition node_cmd :: "world \<Rightarrow> string \<Rightarrow> dict \<Rightarrow> string list" where
  "node_cmd w filepath config =
     [''node'', ''--no-warnings'', ''--experimental-wasi-unstable-preview1'',
      ''--experimental-wasm-bigint'', abspath w ''.node.js'',
      json_dumps None False (JObj config), filepath]"

text \<open>
  The glue programs are JavaScript: \<^verbatim>\<open>JSON.parse\<close> of the first script argument is the
  record, the second script argument is the module, and the guest's arguments are
  \<^verbatim>\<open>[Deno.args[1], ...config.args]\<close> (\<^verbatim>\<open>[process.argv[3], ...config.args]\<close> for node).
  Spreading an array gives its elements and spreading a string its characters; \<open>None\<close>
  stands for a glue program that throws (nothing to parse, nothing to spread) or passes an
  argument that is no string.
\<close>

definition glue_args :: "string list \<Rightarrow> string list option" where
  "glue_args script_args =
     (case script_args of
        [cfg, path] \<Rightarrow>
          (case json_loads cfg of
             Some (JObj config) \<Rightarrow>
               (case dict_get config ''args'' JNull of
                  JArr xs \<Rightarrow> (case arg_strings xs of Inl e \<Rightarrow> None | Inr ss \<Rightarrow> Some (path # ss))
                | JStr t \<Rightarrow> Some (path # map (\<lambda>c. [c]) t)
                | _ \<Rightarrow> None)
           | _ \<Rightarrow> None)
      | _ \<Rightarrow> None)"

text \<open>
  One run of an adapter: what it returned or raised (\<open>None\<close>: it never returns), the
  record afterwards, and the files it wrote or had written, as the paths are spelled.
\<close>

record adapter_run =
  outcome :: "(exn + unit) option"
  config_after :: json
  created :: "string list"

definition raised :: "exn \<Rightarrow> json \<Rightarrow> string list \<Rightarrow> adapter_run" where
  "raised e config files = \<lparr>outcome = Some (Inl e), config_after = config, created = files\<rparr>"

definition test_deno :: "world \<Rightarrow> string \<Rightarrow> json \<Rightarrow> string \<Rightarrow> adapter_run" where
  "test_deno w filepath config cwd =
     (case write_text w ''.deno.ts'' of
        Some e \<Rightarrow> raised e config []
      | None \<Rightarrow>
          (case config of
             JObj d \<Rightarrow>
               (let d' = set_defaults d
                in \<lparr>outcome = test w (deno_cmd w filepath d') d' cwd,
                    config_after = JObj d', created = [''.deno.ts'']\<rparr>)
           | _ \<Rightarrow> raised AttributeError config [''.deno.ts'']))"

definition test_node :: "world \<Rightarrow> string \<Rightarrow> json \<Rightarrow> string \<Rightarrow> adapter_run" where
  "test_node w filepath config cwd =
     (case write_text w ''.node.js'' of
        Some e \<Rightarrow> raised e config []
      | None \<Rightarrow>
          (case config of
             JObj d \<Rightarrow>
               (let d' = set_defaults d
                in \<lparr>outcome = test w (node_cmd w filepath d') d' cwd,
                    config_after = JObj d', created = [''.node.js'']\<rparr>)
           | _ \<Rightarrow> raised AttributeError config [''.node.js'']))"

definition test_wasmer :: "world \<Rightarrow> string \<Rightarrow> json \<Rightarrow> string \<Rightarrow> adapter_run" where
  "test_wasmer w filepath config cwd =
     (case config of
        JObj d \<Rightarrow>
          (case wasmer_cmd filepath d of
             Inl e \<Rightarrow> raised e config []
           | Inr cmd \<Rightarrow> \<lparr>outcome = test w cmd d cwd, config_after = config, created = []\<rparr>)
      | _ \<Rightarrow> raised AttributeError config [])"

definition test_wasmtime :: "world \<Rightarrow> string \<Rightarrow> json \<Rightarrow> string \<Rightarrow> adapter_run" where
  "test_wasmtime w filepath config cwd =
     (case config of
        JObj d \<Rightarrow>
          (case wasmtime_cmd filepath d of
             Inl e \<Rightarrow> raised e config []
           | Inr cmd \<Rightarrow> \<lparr>outcome = test w cmd d cwd, config_after = config, created = []\<rparr>)
      | _ \<Rightarrow> raised AttributeError config [])"

text \<open>
  The wasmedge adapter first has \<^verbatim>\<open>wasmedgec\<close> compile the module into a shared object
  beside it, by \<^verbatim>\<open>check_call\<close>, then runs the object.
\<close>

definition wasmedge_so :: "string \<Rightarrow> string" where
  "wasmedge_so filepath = fst (splitext filepath) @ ''.so''"

definition wasmedgec_cmd :: "string \<Rightarrow> string list" where
  "wasmedgec_cmd filepath = [''wasmedgec'', filepath, wasmedge_so filepath]"

definition test_wasmedge :: "world \<Rightarrow> string \<Rightarrow> json \<Rightarrow> string \<Rightarrow> adapter_run" where
  "test_wasmedge w filepath config cwd =
     (case check_call w (wasmedgec_cmd filepath) of
        None \<Rightarrow> \<lparr>outcome = None, config_after = config, created = []\<rparr>
      | Some (Inl e) \<Rightarrow> raised e config []
      | Some (Inr u) \<Rightarrow>
          (case config of
             JObj d \<Rightarrow>
               (case wasmedge_cmd (wasmedge_so filepath) d of
                  Inl e \<Rightarrow> raised e config [wasmedge_so filepath]
                | Inr cmd \<Rightarrow>
                    \<lparr>outcome = test w cmd d cwd, config_after = config,
                     created = [wasmedge_so filepath]\<rparr>)
           | _ \<Rightarrow> raised AttributeError config [wasmedge_so filepath]))"

datatype adapter = Deno | Node | Wasmer | Wasmtime | Wasmedge

definition tests :: "(string \<times> adapter) list" where
  "tests = [(''deno'', Deno), (''node'', Node), (''wasmer'', Wasmer),
            (''wasmtime'', Wasmtime), (''wasmedge'', Wasmedge)]"

fun run_test :: "adapter \<Rightarrow> world \<Rightarrow> string \<Rightarrow> json \<Rightarrow> string \<Rightarrow> adapter_run" where
  "run_test Deno = test_deno"
| "run_test Node = test_node"
| "run_test Wasmer = test_wasmer"
| "run_test Wasmtime = test_wasmtime"
| "run_test Wasmedge = test_wasmedge"

section \<open>compat.py: the matrix\<close>

text \<open>
  \<^verbatim>\<open>except Exception\<close> catches every exception of the model but \<^verbatim>\<open>KeyboardInterrupt\<close>.
\<close>

fun is_Exception :: "exn \<Rightarrow> bool" where
  "is_Exception KeyboardInterrupt = False"
| "is_Exception _ = True"

definition ok_mark :: string where
  "ok_mark = CHR 0x1B # ''[92mok'' @ CHR 0x1B # ''[0m''"

definition failed_mark :: string where
  "failed_mark = CHR 0x1B # ''[91mFAILED'' @ CHR 0x1B # ''[0m''"

text \<open>
  The state of a run: the strings written to standard output so far, one per
  \<^verbatim>\<open>sys.stdout.write\<close>, the files written, and how many temporary directories and
  scratch resets were asked for. A run returns, ends in an uncaught exception, or hangs.
\<close>

record harness =
  out :: "string list"
  files :: "string list"
  temps :: nat
  resets :: nat

datatype status = Returned | Raised exn | Hung

definition ensure_empty_dir :: "world \<Rightarrow> string \<Rightarrow> harness \<Rightarrow> exn option \<times> harness" where
  "ensure_empty_dir w path st = (rmtree_mkdir w (resets st) path, st\<lparr>resets := Suc (resets st)\<rparr>)"

definition load_config :: "world \<Rightarrow> string \<Rightarrow> exn + json" where
  "load_config w filepath =
     (case read_text w filepath of
        Inl e \<Rightarrow> Inl e
      | Inr s \<Rightarrow> (case json_loads s of None \<Rightarrow> Inl ValueError | Some config \<Rightarrow> Inr config))"

text \<open>
  The body of \<^verbatim>\<open>for name in tests\<close>, for one adapter: the scratch reset, the name, the
  call in its \<^verbatim>\<open>try\<close>, the mark, and the newline of the \<^verbatim>\<open>finally\<close>.
\<close>

definition run_cell ::
  "world \<Rightarrow> string \<Rightarrow> string \<Rightarrow> string \<times> adapter \<Rightarrow> json \<Rightarrow> harness \<Rightarrow> status \<times> json \<times> harness" where
  "run_cell w filepath workdir t config st =
     (case ensure_empty_dir w ''scratch'' st of
        (Some e, st1) \<Rightarrow> (Raised e, config, st1)
      | (None, st1) \<Rightarrow>
          (let st2 = st1\<lparr>out := out st1 @ [''  '', fst t, '' ... '']\<rparr>;
               r = run_test (snd t) w (abspath w filepath) config workdir;
               st3 = st2\<lparr>files := files st2 @ created r\<rparr>
           in case outcome r of
                None \<Rightarrow> (Hung, config_after r, st3)
              | Some (Inr u) \<Rightarrow>
                  (Returned, config_after r, st3\<lparr>out := out st3 @ [ok_mark, [CHR 0x0A]]\<rparr>)
              | Some (Inl e) \<Rightarrow>
                  if is_Exception e
                  then (Returned, config_after r, st3\<lparr>out := out st3 @ [failed_mark, [CHR 0x0A]]\<rparr>)
                  else (Raised e, config_after r, st3\<lparr>out := out st3 @ [[CHR 0x0A]]\<rparr>)))"

fun for_tests ::
  "world \<Rightarrow> string \<Rightarrow> string \<Rightarrow> (string \<times> adapter) list \<Rightarrow> json \<Rightarrow> harness \<Rightarrow> status \<times> harness" where
  "for_tests w filepath workdir [] config st = (Returned, st)"
| "for_tests w filepath workdir (t # ts) config st =
     (case run_cell w filepath workdir t config st of
        (Returned, config', st') \<Rightarrow> for_tests w filepath workdir ts config' st'
      | (s, config', st') \<Rightarrow> (s, st'))"

text \<open>
  Lines 213 to 219: the record of a module is the first match of the pattern
  \<^verbatim>\<open>dirname/**/*/basename.json\<close>; \<^verbatim>\<open>matches[0]\<close> raises \<^verbatim>\<open>IndexError\<close> on no match.
\<close>

definition record_pattern :: "string \<Rightarrow> string" where
  "record_pattern filepath =
     path_join (dirname filepath) [''**'', ''*'', basename (fst (splitext filepath)) @ ''.json'']"

definition resolve_config :: "world \<Rightarrow> string \<Rightarrow> exn + json" where
  "resolve_config w filepath =
     (case glob w (record_pattern filepath) True of
        [] \<Rightarrow> Inl IndexError
      | m # ms \<Rightarrow> load_config w m)"

definition run_case :: "world \<Rightarrow> string \<Rightarrow> harness \<Rightarrow> status \<times> harness" where
  "run_case w filepath st =
     (case resolve_config w filepath of
        Inl e \<Rightarrow> (Raised e, st)
      | Inr config \<Rightarrow>
          (case mkdtemp w (temps st) of
             Inl e \<Rightarrow> (Raised e, st\<lparr>temps := Suc (temps st)\<rparr>)
           | Inr workdir \<Rightarrow>
               (case copytree w ''fixtures'' (path_join workdir [''fixtures'']) of
                  Some e \<Rightarrow> (Raised e, st\<lparr>temps := Suc (temps st)\<rparr>)
                | None \<Rightarrow>
                    for_tests w filepath workdir tests config
                      (st\<lparr>temps := Suc (temps st),
                          out := out st @ [''test '', filepath, '' ... '', [CHR 0x0A]]\<rparr>))))"

fun for_inputs :: "world \<Rightarrow> string list \<Rightarrow> harness \<Rightarrow> status \<times> harness" where
  "for_inputs w [] st = (Returned, st)"
| "for_inputs w (filepath # inputs) st =
     (case run_case w filepath st of
        (Returned, st') \<Rightarrow> for_inputs w inputs st'
      | (s, st') \<Rightarrow> (s, st'))"

definition main :: "world \<Rightarrow> status \<times> harness" where
  "main w =
     for_inputs w (sort (glob w ''target/wasm32-wasi/**/*.wasm'' False))
       \<lparr>out = [], files = [], temps = 0, resets = 0\<rparr>"

section \<open>Records with typed fields\<close>

text \<open>
  The fields of a record as the specification types them, in the JSON the code reads:
  a mapping from strings to strings, a sequence of strings, and an absent or
  \<^verbatim>\<open>null\<close> field (\<^verbatim>\<open>config.get\<close> gives \<^verbatim>\<open>None\<close> for both).
\<close>

definition str_dict :: "(string \<times> string) list \<Rightarrow> json" where
  "str_dict m = JObj (map (\<lambda>(k, v). (k, JStr v)) m)"

definition str_list :: "string list \<Rightarrow> json" where
  "str_list xs = JArr (map JStr xs)"

fun optional :: "('a \<Rightarrow> json) \<Rightarrow> 'a option \<Rightarrow> json" where
  "optional f None = JNull"
| "optional f (Some x) = f x"

text \<open>The command words the loops make of such fields.\<close>

definition flag_words :: "string \<Rightarrow> string \<Rightarrow> (string \<times> string) list option \<Rightarrow> string list" where
  "flag_words flag sep m =
     (case m of None \<Rightarrow> [] | Some kvs \<Rightarrow> concat (map (\<lambda>(k, v). [flag, k @ sep @ v]) kvs))"

definition dashed_args :: "string list option \<Rightarrow> string list" where
  "dashed_args args = (case args of None \<Rightarrow> [] | Some xs \<Rightarrow> ''--'' # xs)"

definition plain_args :: "string list option \<Rightarrow> string list" where
  "plain_args args = (case args of None \<Rightarrow> [] | Some xs \<Rightarrow> xs)"

section \<open>The command of each adapter, and example environments\<close>

text \<open>
  The command an adapter hands to \<^verbatim>\<open>test\<close> for the record \<open>config\<close>, and what has to
  succeed before it gets there: writing the glue program, or compiling the module.
\<close>

fun guest_cmd :: "world \<Rightarrow> adapter \<Rightarrow> string \<Rightarrow> dict \<Rightarrow> exn + string list" where
  "guest_cmd w Deno filepath config = Inr (deno_cmd w filepath (set_defaults config))"
| "guest_cmd w Node filepath config = Inr (node_cmd w filepath (set_defaults config))"
| "guest_cmd w Wasmer filepath config = wasmer_cmd filepath config"
| "guest_cmd w Wasmtime filepath config = wasmtime_cmd filepath config"
| "guest_cmd w Wasmedge filepath config = wasmedge_cmd (wasmedge_so filepath) config"


text \<open>
  An environment for examples: the harness runs in \<^verbatim>\<open>/home/u/wasi-test\<close>, every file
  operation succeeds, no file matches any pattern, and the programs behave as \<open>p\<close> says
  of their command line.
\<close>

definition example_world :: "(string list \<Rightarrow> behaviour) \<Rightarrow> world" where
  "example_world p =
     \<lparr>getcwd = ''/home/u/wasi-test'',
      glob = (\<lambda>pattern recursive. []),
      read_text = (\<lambda>path. Inl OSError),
      write_text = (\<lambda>path. None),
      mkdtemp = (\<lambda>n. Inr ''/tmp/tmpabc''),
      copytree = (\<lambda>src dst. None),
      rmtree_mkdir = (\<lambda>n path. None),
      proc = (\<lambda>cmd cwd input. p cmd)\<rparr>"

definition exits_with :: "string \<Rightarrow> string \<Rightarrow> int \<Rightarrow> behaviour" where
  "exits_with so se rc = Exits 1 \<lparr>stdout = so, stderr = se, returncode = rc\<rparr>"

text \<open>Every program prints nothing and exits with 0 after a second.\<close>

definition quiet_world :: world where
  "quiet_world = example_world (\<lambda>cmd. exits_with [] [] 0)"

text \<open>The guest prints \<^verbatim>\<open>x\<close>; and: no program can be started.\<close>

definition chatty_world :: world where
  "chatty_world = example_world (\<lambda>cmd. exits_with ''x'' [] 0)"

definition broken_world :: world where
  "broken_world = example_world (\<lambda>cmd. Fails OSError)"


definition slow_world :: world where
  "slow_world = example_world (\<lambda>cmd. Exits 7 \<lparr>stdout = [], stderr = [], returncode = 0\<rparr>)"

text \<open>
  Three modules are built. No record file matches the pattern of \<^verbatim>\<open>a.wasm\<close>; two match
  the pattern of \<^verbatim>\<open>b.wasm\<close>, the first expecting exit status 1 and the second exit
  status 0; exactly one matches the pattern of \<^verbatim>\<open>c.wasm\<close>.
\<close>

definition matrix_world :: world where
  "matrix_world =
     (quiet_world
        \<lparr>glob := (\<lambda>pattern recursive.
           if pattern = ''target/wasm32-wasi/**/*.wasm''
           then [''target/wasm32-wasi/debug/c.wasm'', ''target/wasm32-wasi/debug/b.wasm'',
                 ''target/wasm32-wasi/debug/a.wasm'']
           else if pattern = ''target/wasm32-wasi/debug/**/*/b.json''
           then [''target/wasm32-wasi/debug/deps/b.json'', ''target/wasm32-wasi/debug/old/b.json'']
           else if pattern = ''target/wasm32-wasi/debug/**/*/c.json''
           then [''target/wasm32-wasi/debug/deps/c.json'']
           else []),
         read_text := (\<lambda>path.
           if path = ''target/wasm32-wasi/debug/deps/b.json'' then Inr ''{ \"exitCode\": 1 }''
           else if path = ''target/wasm32-wasi/debug/old/b.json'' then Inr ''{}''
           else if path = ''target/wasm32-wasi/debug/deps/c.json'' then Inr ''{}''
           else Inl OSError)\<rparr>)"

definition start :: harness where
  "start = \<lparr>out = [], files = [], temps = 0, resets = 0\<rparr>"


section \<open>Properties of the prelude extraction\<close>

lemma file_lines_line:
  "CHR 0x0A \<notin> set l \<Longrightarrow> file_lines (l @ CHR 0x0A # rest) = (l @ [CHR 0x0A]) # file_lines rest"
  by (induction l) auto

lemma str_split_absent: "\<not> str_contains sep s \<Longrightarrow> str_split sep s = [s]"
  by (induction s) auto

lemma str_split_marker_first:
  assumes "\<not> str_contains ''//'' r"
  shows "str_split ''//'' (''//'' @ r) = [[], r]"
  using assms by (simp add: str_split_absent)

lemma str_contains_snoc_nl:
  "str_contains ''//'' (r @ [CHR 0x0A]) \<Longrightarrow> str_contains ''//'' r"
  by (induction r) (auto simp: prefix_Cons)

lemma file_lines_header_line:
  assumes "CHR 0x0A \<notin> set r"
  shows "file_lines (header_line r @ rest) = header_line r # file_lines rest"
proof -
  have "CHR 0x0A \<notin> set (''//'' @ r)" using assms by simp
  from file_lines_line[OF this, of rest] show ?thesis
    by (simp add: header_line_def)
qed

lemma file_lines_header:
  assumes "\<forall>r\<in>set rs. CHR 0x0A \<notin> set r"
  shows "file_lines (concat (map header_line rs) @ rest) = map header_line rs @ file_lines rest"
  using assms
proof (induction rs)
  case Nil
  then show ?case by simp
next
  case (Cons r rs)
  have "file_lines (header_line r @ (concat (map header_line rs) @ rest))
        = header_line r # file_lines (concat (map header_line rs) @ rest)"
    using Cons.prems by (intro file_lines_header_line) simp
  then show ?case using Cons by simp
qed

lemma prelude_loop_header:
  assumes "\<forall>r\<in>set rs. CHR 0x0A \<notin> set r \<and> \<not> str_contains ''//'' r"
  shows "prelude_loop (map header_line rs @ rest) acc
         = prelude_loop rest (acc @ concat (map (\<lambda>r. r @ [CHR 0x0A]) rs))"
  using assms
proof (induction rs arbitrary: acc)
  case Nil
  then show ?case by simp
next
  case (Cons r rs)
  have nm: "\<not> str_contains ''//'' (r @ [CHR 0x0A])"
    using Cons.prems str_contains_snoc_nl by auto
  have sp: "str_split ''//'' (header_line r) = [[], r @ [CHR 0x0A]]"
    using str_split_marker_first[OF nm] by (simp add: header_line_def)
  have ne: "header_line r \<noteq> [CHR 0x0A]" by (simp add: header_line_def)
  show ?case using Cons sp ne by simp
qed

text \<open>
  C8 (as the code has it). A header of lines that each start with the marker and hold no
  second marker is extracted as the concatenation of the whole remainders, newline
  included. The header ends at the first line that is only a newline, and it ends just
  as well at the end of the file: without a blank line the extraction succeeds with the
  same text.
\<close>

theorem extract_prelude_header:
  assumes "\<forall>r\<in>set rs. CHR 0x0A \<notin> set r \<and> \<not> str_contains ''//'' r"
  shows "extract_prelude (concat (map header_line rs) @ CHR 0x0A # body)
           = Inr (concat (map (\<lambda>r. r @ [CHR 0x0A]) rs))
       \<and> extract_prelude (concat (map header_line rs))
           = Inr (concat (map (\<lambda>r. r @ [CHR 0x0A]) rs))"
proof -
  have nl: "\<forall>r\<in>set rs. CHR 0x0A \<notin> set r" using assms by simp
  have a: "file_lines (concat (map header_line rs) @ CHR 0x0A # body)
        = map header_line rs @ [CHR 0x0A] # file_lines body"
    using file_lines_header[OF nl, of "CHR 0x0A # body"] by simp
  have b: "file_lines (concat (map header_line rs)) = map header_line rs @ []"
    using file_lines_header[OF nl, of "[]"] by simp
  show ?thesis
    unfolding extract_prelude_def a b
    using prelude_loop_header[OF assms, of "[CHR 0x0A] # file_lines body" "[]"]
      prelude_loop_header[OF assms, of "[]" "[]"]
    by simp
qed

theorem extract_prelude_header_witness:
  "extract_prelude (''// {'' @ [CHR 0x0A] @ ''// }'' @ [CHR 0x0A, CHR 0x0A] @ ''int main() {}'')
     = Inr ('' {'' @ [CHR 0x0A] @ '' }'' @ [CHR 0x0A])
   \<and> extract_prelude (''// {'' @ [CHR 0x0A] @ ''// }'' @ [CHR 0x0A])
     = Inr ('' {'' @ [CHR 0x0A] @ '' }'' @ [CHR 0x0A])"
  using extract_prelude_header[of "['' {'', '' }'']" "''int main() {}''"]
  by (simp add: header_line_def)

text \<open>
  C8 (as stated) fails on a file whose only line is \<^verbatim>\<open>// {}\<close>: no line of it is blank,
  and the extraction returns the remainder instead of failing.
\<close>

theorem extract_prelude_no_sentinel_counterexample:
  "[CHR 0x0A] \<notin> set (file_lines (''// {}'' @ [CHR 0x0A]))
   \<and> extract_prelude (''// {}'' @ [CHR 0x0A]) = Inr ('' {}'' @ [CHR 0x0A])"
  by (simp add: extract_prelude_def)

section \<open>Properties of the JSON encoder and decoder\<close>

lemma hex_val_hex_char: "n < 16 \<Longrightarrow> hex_val (hex_char n) = Some n"
  by (auto simp: hex_val_def hex_char_def Let_def)

lemma hex_val_zero: "hex_val CHR ''0'' = Some 0"
  by (simp add: hex_val_def)

lemma decode_escape:
  "decode_uXXXX CHR ''0'' CHR ''0'' (hex_char (of_char c div 16)) (hex_char (of_char c mod 16))
     = Some c"
proof -
  have lt: "(of_char c :: nat) < 256" by simp
  then have a: "(of_char c :: nat) div 16 < 16" by linarith
  have b: "(of_char c :: nat) mod 16 < 16" by simp
  have "of_char c div 16 * 16 + of_char c mod 16 = (of_char c :: nat)" by simp
  then show ?thesis
    using lt by (simp add: decode_uXXXX_def hex_val_hex_char[OF a] hex_val_hex_char[OF b] hex_val_zero)
qed

lemma scanstring_escape_char:
  "scanstring (escape_char c @ rest)
     = (case scanstring rest of None \<Rightarrow> None | Some (s, r) \<Rightarrow> Some (c # s, r))"
proof -
  consider (bs) "c = CHR 0x5C" | (q) "c = CHR 0x22" | (b) "c = CHR 0x08" | (f) "c = CHR 0x0C"
    | (n) "c = CHR 0x0A" | (r) "c = CHR 0x0D" | (t) "c = CHR 0x09"
    | (plain) "c \<noteq> CHR 0x5C" "c \<noteq> CHR 0x22" "0x20 \<le> (of_char c :: nat)" "(of_char c :: nat) \<le> 0x7E"
    | (uni) "c \<noteq> CHR 0x5C" "c \<noteq> CHR 0x22" "c \<noteq> CHR 0x08" "c \<noteq> CHR 0x0C" "c \<noteq> CHR 0x0A"
        "c \<noteq> CHR 0x0D" "c \<noteq> CHR 0x09" "\<not> (0x20 \<le> (of_char c :: nat) \<and> (of_char c :: nat) \<le> 0x7E)"
    by fastforce
  then show ?thesis
  proof cases
    case bs
    show ?thesis unfolding bs by (simp add: escape_char_def backslash_def)
  next
    case q
    show ?thesis unfolding q by (simp add: escape_char_def backslash_def)
  next
    case b
    show ?thesis unfolding b by (simp add: escape_char_def backslash_def)
  next
    case f
    show ?thesis unfolding f by (simp add: escape_char_def backslash_def)
  next
    case n
    show ?thesis unfolding n by (simp add: escape_char_def backslash_def)
  next
    case r
    show ?thesis unfolding r by (simp add: escape_char_def backslash_def)
  next
    case t
    show ?thesis unfolding t by (simp add: escape_char_def backslash_def)
  next
    case plain
    have e: "escape_char c = [c]"
      using plain by (auto simp: escape_char_def)
    show ?thesis using plain by (simp add: e)
  next
    case uni
    have e: "escape_char c = [CHR 0x5C, CHR ''u'', CHR ''0'', CHR ''0'',
        hex_char ((of_char c :: nat) div 16), hex_char ((of_char c :: nat) mod 16)]"
      using uni by (simp add: escape_char_def)
    show ?thesis by (simp add: e decode_escape)
  qed
qed

lemma scanstring_escaped:
  "scanstring (concat (map escape_char s) @ CHR 0x22 # rest) = Some (s, rest)"
  by (induction s) (simp_all add: scanstring_escape_char)

lemma scanstring_encode_str:
  "scanstring (tl (encode_str s @ rest)) = Some (s, rest)"
  by (simp add: encode_str_def scanstring_escaped)

lemma encode_str_Cons: "encode_str s @ rest = CHR 0x22 # tl (encode_str s @ rest)"
  by (simp add: encode_str_def)

lemma is_digit_digit_char: "d < 10 \<Longrightarrow> is_digit (digit_char d)"
  by (simp add: is_digit_def digit_char_def)

lemma digit_char_value: "d < 10 \<Longrightarrow> (of_char (digit_char d) :: nat) - 48 = d"
  by (simp add: digit_char_def)

lemma show_nat_digits: "c \<in> set (show_nat n) \<Longrightarrow> is_digit c"
proof (induction n arbitrary: c rule: show_nat.induct)
  case (1 n)
  show ?case
  proof (cases "n < 10")
    case True
    then show ?thesis using "1.prems" by (simp add: show_nat.simps[of n] is_digit_digit_char)
  next
    case False
    then have "c \<in> set (show_nat (n div 10)) \<or> c = digit_char (n mod 10)"
      using "1.prems" by (auto simp: show_nat.simps[of n])
    then show ?thesis
      using "1.IH"[OF False] by (auto simp: is_digit_digit_char)
  qed
qed

lemma show_nat_nonempty: "show_nat n \<noteq> []"
  by (simp add: show_nat.simps[of n])

lemma nat_of_digits_snoc:
  "nat_of_digits (ds @ [c]) = 10 * nat_of_digits ds + ((of_char c :: nat) - 48)"
  by (simp add: nat_of_digits_def)

lemma nat_of_digits_show_nat: "nat_of_digits (show_nat n) = n"
proof (induction n rule: show_nat.induct)
  case (1 n)
  show ?case
  proof (cases "n < 10")
    case True
    then show ?thesis
      by (simp add: show_nat.simps[of n] nat_of_digits_def digit_char_value)
  next
    case False
    then show ?thesis
      using "1.IH"[OF False]
      by (simp add: show_nat.simps[of n] nat_of_digits_snoc digit_char_value)
  qed
qed

lemma show_nat_zero: "show_nat 0 = ''0''"
  by code_simp

lemma show_nat_hd_nonzero: "0 < n \<Longrightarrow> hd (show_nat n) \<noteq> CHR ''0''"
proof (induction n rule: show_nat.induct)
  case (1 n)
  show ?case
  proof (cases "n < 10")
    case True
    have "digit_char n \<noteq> CHR ''0''"
    proof
      assume "digit_char n = CHR ''0''"
      then have "(of_char (digit_char n) :: nat) - 48 = of_char CHR ''0'' - 48" by simp
      then show False using True "1.prems" by (simp add: digit_char_value)
    qed
    then show ?thesis using True by (simp add: show_nat.simps[of n])
  next
    case False
    then have "0 < n div 10" by simp
    then show ?thesis
      using "1.IH"[OF False] False show_nat_nonempty[of "n div 10"]
      by (simp add: show_nat.simps[of n])
  qed
qed

lemma takeWhile_digits_show_nat:
  assumes "rest = [] \<or> \<not> is_digit (hd rest)"
  shows "takeWhile is_digit (show_nat n @ rest) = show_nat n"
proof -
  have "takeWhile is_digit rest = []"
    using assms by (cases rest) auto
  then show ?thesis
    using show_nat_digits by (simp add: takeWhile_append2)
qed

lemma value_end_not_digit: "value_end rest \<Longrightarrow> rest = [] \<or> \<not> is_digit (hd rest)"
  by (auto simp: value_end_def is_digit_def is_ws_def)

lemma value_end_not_float: "value_end rest \<Longrightarrow> \<not> float_tail rest"
  by (cases rest) (auto simp: value_end_def float_tail_def is_ws_def)

lemma match_number_minus:
  "match_number (CHR ''-'' # s1) =
     (case s1 of
        [] \<Rightarrow> None
      | c # cs \<Rightarrow>
          if \<not> is_digit c then None
          else
            let ds = (if c = CHR ''0'' then [c] else takeWhile is_digit s1);
                r = drop (length ds) s1
            in if float_tail r then None
               else Some (JInt (- int (nat_of_digits ds)), r))"
  by (simp add: match_number_def Let_def split: list.splits)

lemma match_number_core:
  assumes "s1 \<noteq> []" and "is_digit (hd s1)"
    and "(if hd s1 = CHR ''0'' then [hd s1] else takeWhile is_digit s1) = ds"
    and "\<not> float_tail (drop (length ds) s1)"
  shows "match_number s1 = Some (JInt (int (nat_of_digits ds)), drop (length ds) s1)"
    and "match_number (CHR ''-'' # s1) = Some (JInt (- int (nat_of_digits ds)), drop (length ds) s1)"
proof -
  obtain c cs where s1: "s1 = c # cs" using assms(1) by (cases s1) auto
  have dig: "is_digit c" using assms(2) s1 by simp
  have nm: "c \<noteq> CHR ''-''" using dig by (auto simp: is_digit_def)
  have ds: "(if c = CHR ''0'' then [c] else takeWhile is_digit (c # cs)) = ds"
    using assms(3)[unfolded s1] dig by (auto split: if_splits)
  show "match_number s1 = Some (JInt (int (nat_of_digits ds)), drop (length ds) s1)"
    unfolding match_number_def s1 using dig nm assms(4)[unfolded s1]
    by (simp only: Let_def list.sel list.case ds not_Cons_self2 simp_thms if_False if_True)
  show "match_number (CHR ''-'' # s1) = Some (JInt (- int (nat_of_digits ds)), drop (length ds) s1)"
    unfolding match_number_minus s1 using dig nm assms(4)[unfolded s1]
    by (simp only: Let_def list.sel list.case ds not_Cons_self2 simp_thms if_False if_True)
qed

lemma match_number_nat_gen:
  assumes "value_end rest"
  shows "match_number (show_nat n @ rest) = Some (JInt (int n), rest)"
    and "0 < n \<Longrightarrow> match_number (CHR ''-'' # show_nat n @ rest) = Some (JInt (- int n), rest)"
proof -
  let ?s = "show_nat n @ rest"
  have ne: "?s \<noteq> []" using show_nat_nonempty[of n] by simp
  have hd: "hd ?s = hd (show_nat n)" using show_nat_nonempty[of n] by simp
  have "hd (show_nat n) \<in> set (show_nat n)" using show_nat_nonempty[of n] by simp
  then have dig: "is_digit (hd ?s)" using show_nat_digits hd by simp
  have tw: "takeWhile is_digit ?s = show_nat n"
    using takeWhile_digits_show_nat[OF value_end_not_digit[OF assms]] by simp
  have dr: "drop (length (show_nat n)) ?s = rest" by simp
  have fl: "\<not> float_tail (drop (length (show_nat n)) ?s)"
    using value_end_not_float[OF assms] by simp
  {
    assume pos: "0 < n"
    have "hd ?s \<noteq> CHR ''0''" using show_nat_hd_nonzero[OF pos] hd by simp
    then have ds: "(if hd ?s = CHR ''0'' then [hd ?s] else takeWhile is_digit ?s) = show_nat n"
      using tw by simp
    note match_number_core[OF ne dig ds fl, unfolded dr nat_of_digits_show_nat]
  }
  note positive = this
  show "match_number ?s = Some (JInt (int n), rest)"
  proof (cases "n = 0")
    case True
    have z: "show_nat n = ''0''" using True by (simp add: show_nat_zero)
    have ds: "(if hd ?s = CHR ''0'' then [hd ?s] else takeWhile is_digit ?s) = show_nat n"
      by (simp add: z)
    from match_number_core(1)[OF ne dig ds fl] show ?thesis
      by (simp add: nat_of_digits_show_nat)
  next
    case False
    then show ?thesis using positive(1) by simp
  qed
  show "0 < n \<Longrightarrow> match_number (CHR ''-'' # ?s) = Some (JInt (- int n), rest)"
    using positive(2) by simp
qed

lemma match_number_int:
  assumes "value_end rest"
  shows "match_number (show_int i @ rest) = Some (JInt i, rest)"
proof (cases "i < 0")
  case False
  then show ?thesis
    using match_number_nat_gen(1)[OF assms, of "nat i"] by (simp add: show_int_def)
next
  case True
  then have pos: "0 < nat (- i)" by simp
  show ?thesis
    using True match_number_nat_gen(2)[OF assms pos] by (simp add: show_int_def)
qed

lemma skip_ws_all_ws: "\<forall>c\<in>set ws. is_ws c \<Longrightarrow> skip_ws (ws @ s) = skip_ws s"
  by (simp add: skip_ws_def dropWhile_append2)

lemma skip_ws_value_start: "value_start s \<Longrightarrow> skip_ws s = s"
  by (cases s) (simp_all add: skip_ws_def value_start_def)

lemma skip_ws_before_value:
  "\<forall>c\<in>set ws. is_ws c \<Longrightarrow> value_start s \<Longrightarrow> skip_ws (ws @ s) = s"
  by (simp add: skip_ws_all_ws skip_ws_value_start)

lemma newline_indent_ws: "\<forall>c\<in>set (newline_indent ind lvl). is_ws c"
  by (cases ind) (simp_all add: newline_indent_def is_ws_def)

lemma item_separator_shape:
  "\<exists>ws. item_separator ind lvl = CHR '','' # ws \<and> (\<forall>c\<in>set ws. is_ws c)"
  by (cases ind) (simp_all add: item_separator_def newline_indent_def is_ws_def)

lemma value_end_closing:
  "\<forall>c\<in>set ws. is_ws c \<Longrightarrow> value_end (ws @ CHR '']'' # rest)"
  "\<forall>c\<in>set ws. is_ws c \<Longrightarrow> value_end (ws @ CHR ''}'' # rest)"
  by (cases ws; simp add: value_end_def)+

lemma value_end_comma: "value_end (CHR '','' # s)"
  by (simp add: value_end_def)

lemma value_start_append: "value_start s \<Longrightarrow> value_start (s @ t)"
  by (cases s) (simp_all add: value_start_def)

lemma show_int_first:
  "\<exists>c cs. show_int i = c # cs \<and> (c = CHR ''-'' \<or> is_digit c)"
proof (cases "i < 0")
  case True
  then show ?thesis by (simp add: show_int_def)
next
  case False
  obtain c cs where cs: "show_nat (nat i) = c # cs"
    using show_nat_nonempty[of "nat i"] by (cases "show_nat (nat i)") auto
  then have "is_digit c" using show_nat_digits[of c "nat i"] by simp
  then show ?thesis using False cs by (simp add: show_int_def)
qed

lemma value_start_iterencode: "value_start (iterencode ind lvl v)"
proof (cases v)
  case (JInt i)
  obtain c cs where "show_int i = c # cs" "c = CHR ''-'' \<or> is_digit c"
    using show_int_first by blast
  then show ?thesis using JInt by (auto simp: value_start_def is_digit_def is_ws_def)
qed (simp_all add: value_start_def is_ws_def encode_str_def)

lemma scan_once_number:
  assumes "c = CHR ''-'' \<or> is_digit c"
  shows "scan_once (Suc n) (c # cs) = match_number (c # cs)"
proof -
  have ne: "c \<noteq> CHR 0x22" "c \<noteq> CHR ''{''" "c \<noteq> CHR ''[''" "c \<noteq> CHR ''n''" "c \<noteq> CHR ''t''"
    "c \<noteq> CHR ''f''"
    using assms by (auto simp: is_digit_def)
  then show ?thesis by simp
qed

lemma scan_once_int:
  assumes "value_end rest"
  shows "scan_once (Suc n) (show_int i @ rest) = Some (JInt i, rest)"
proof -
  obtain c cs where cs: "show_int i = c # cs" "c = CHR ''-'' \<or> is_digit c"
    using show_int_first by blast
  have "scan_once (Suc n) (c # cs @ rest) = match_number (c # cs @ rest)"
    using cs(2) by (rule scan_once_number)
  then show ?thesis
    using match_number_int[OF assms, of i] by (simp add: cs(1))
qed

lemma scan_once_str: "scan_once (Suc n) (encode_str s @ rest) = Some (JStr s, rest)"
proof -
  have "scan_once (Suc n) (CHR 0x22 # tl (encode_str s @ rest)) = Some (JStr s, rest)"
    by (simp add: scanstring_encode_str)
  then show ?thesis using encode_str_Cons[of s rest] by simp
qed

lemma scan_once_array:
  assumes "skip_ws cs = t" and "value_start t"
  shows "scan_once (Suc n) (CHR ''['' # cs)
         = (case parse_array n t of None \<Rightarrow> None | Some (vs, r) \<Rightarrow> Some (JArr vs, r))"
  using assms by (cases t) (simp_all add: value_start_def)

lemma scan_once_object:
  assumes "skip_ws cs = t" and "value_start t"
  shows "scan_once (Suc n) (CHR ''{'' # cs)
         = (case parse_object n t of
              None \<Rightarrow> None
            | Some (kvs, r) \<Rightarrow> Some (JObj (dict_of_pairs kvs), r))"
  using assms by (cases t) (simp_all add: value_start_def)

lemma parse_array_step_last:
  assumes "scan_once n s = Some (v, r)" and "skip_ws r = CHR '']'' # r'"
  shows "parse_array (Suc n) s = Some ([v], r')"
  using assms by simp

lemma parse_array_step_more:
  assumes "scan_once n s = Some (v, r)" and "skip_ws r = CHR '','' # r'"
    and "parse_array n (skip_ws r') = Some (vs, r'')"
  shows "parse_array (Suc n) s = Some (v # vs, r'')"
  using assms by simp

lemma parse_array_items:
  assumes enc: "\<And>x m r. x \<in> set xs \<Longrightarrow> jsize x \<le> m \<Longrightarrow> value_end r
                  \<Longrightarrow> scan_once m (enc x @ r) = Some (x, r)"
    and start: "\<And>x. x \<in> set xs \<Longrightarrow> value_start (enc x)"
    and "xs \<noteq> []"
    and "sum_list (map (\<lambda>x. Suc (jsize x)) xs) \<le> n"
    and w2: "\<forall>c\<in>set w2. is_ws c" and w3: "\<forall>c\<in>set w3. is_ws c"
  shows "parse_array n (intercalate (CHR '','' # w2) (map enc xs) @ w3 @ CHR '']'' # rest)
         = Some (xs, rest)"
  using assms(1-4)
proof (induction xs arbitrary: n)
  case Nil
  then show ?case by simp
next
  case (Cons x xs)
  from Cons.prems(4) obtain m where n: "n = Suc m" and mx: "jsize x \<le> m"
    and mxs: "sum_list (map (\<lambda>x. Suc (jsize x)) xs) \<le> m"
    by (cases n) auto
  show ?case
  proof (cases xs)
    case Nil
    have 1: "scan_once m (enc x @ (w3 @ CHR '']'' # rest)) = Some (x, w3 @ CHR '']'' # rest)"
      using Cons.prems(1)[of x m] mx value_end_closing(1)[OF w3] by simp
    have 2: "skip_ws (w3 @ CHR '']'' # rest) = CHR '']'' # rest"
      using w3 by (simp add: skip_ws_all_ws) (simp add: skip_ws_def is_ws_def)
    show ?thesis
      using parse_array_step_last[OF 1 2] by (simp add: Nil n)
  next
    case (Cons y ys)
    let ?tail = "intercalate (CHR '','' # w2) (map enc (y # ys)) @ w3 @ CHR '']'' # rest"
    have 1: "scan_once m (enc x @ (CHR '','' # w2 @ ?tail)) = Some (x, CHR '','' # w2 @ ?tail)"
      using Cons.prems(1)[of x m] mx value_end_comma by simp
    have 2: "skip_ws (CHR '','' # w2 @ ?tail) = CHR '','' # (w2 @ ?tail)"
      by (simp add: skip_ws_def is_ws_def)
    have "value_start (enc y)" using Cons.prems(2)[of y] Cons by simp
    then have "value_start ?tail"
      by (cases ys) (simp_all add: value_start_append)
    then have 3: "skip_ws (w2 @ ?tail) = ?tail"
      using w2 by (rule skip_ws_before_value[rotated])
    have 4: "parse_array m ?tail = Some (xs, rest)"
      using Cons.IH[of m] Cons.prems(1,2) mxs Cons by simp
    show ?thesis
      using parse_array_step_more[OF 1 2, of xs rest] 3 4 by (simp add: Cons n)
  qed
qed

lemma skip_ws_Cons: "skip_ws (c # s) = (if is_ws c then skip_ws s else c # s)"
  by (simp add: skip_ws_def)

lemma value_start_intercalate:
  assumes "xs \<noteq> []" and "value_start (hd xs)"
  shows "value_start (intercalate sep xs)"
proof -
  obtain x xs' where xs: "xs = x # xs'" using assms(1) by (cases xs) auto
  show ?thesis
    using assms(2) by (cases xs') (simp_all add: xs value_start_append)
qed

lemma parse_object_member:
  assumes "scan_once n (ev @ r2) = Some (v, r2)" and "value_start ev"
  shows "parse_object (Suc n) (encode_str k @ '': '' @ ev @ r2)
         = (case skip_ws r2 of
              [] \<Rightarrow> None
            | c' # r3 \<Rightarrow>
                if c' = CHR ''}'' then Some ([(k, v)], r3)
                else if c' = CHR '','' then
                  (case parse_object n (skip_ws r3) of
                     None \<Rightarrow> None
                   | Some (kvs, r4) \<Rightarrow> Some ((k, v) # kvs, r4))
                else None)"
proof -
  have a: "skip_ws (ev @ r2) = ev @ r2"
    using value_start_append[OF assms(2)] by (rule skip_ws_value_start)
  show ?thesis
    using assms(1)
    by (simp add: encode_str_def scanstring_escaped skip_ws_Cons is_ws_def a)
qed

lemma parse_object_items:
  assumes enc: "\<And>kv m r. kv \<in> set kvs \<Longrightarrow> jsize (snd kv) \<le> m \<Longrightarrow> value_end r
                  \<Longrightarrow> scan_once m (enc (snd kv) @ r) = Some (snd kv, r)"
    and start: "\<And>kv. kv \<in> set kvs \<Longrightarrow> value_start (enc (snd kv))"
    and "kvs \<noteq> []"
    and "sum_list (map (\<lambda>kv. Suc (jsize (snd kv))) kvs) \<le> n"
    and w2: "\<forall>c\<in>set w2. is_ws c" and w3: "\<forall>c\<in>set w3. is_ws c"
  shows "parse_object n
           (intercalate (CHR '','' # w2) (map (\<lambda>(k, v). encode_str k @ '': '' @ enc v) kvs)
            @ w3 @ CHR ''}'' # rest)
         = Some (kvs, rest)"
  using assms(1-4)
proof (induction kvs arbitrary: n)
  case Nil
  then show ?case by simp
next
  case (Cons kv kvs)
  obtain k v where kv: "kv = (k, v)" by (cases kv)
  from Cons.prems(4) obtain m where n: "n = Suc m" and mx: "jsize v \<le> m"
    and mxs: "sum_list (map (\<lambda>kv. Suc (jsize (snd kv))) kvs) \<le> m"
    by (cases n) (auto simp: kv)
  have vs: "value_start (enc v)" using Cons.prems(2)[of kv] by (simp add: kv)
  show ?case
  proof (cases kvs)
    case Nil
    let ?t = "w3 @ CHR ''}'' # rest"
    have 3: "scan_once m (enc v @ ?t) = Some (v, ?t)"
      using Cons.prems(1)[of kv m ?t] mx value_end_closing(2)[OF w3] by (simp add: kv)
    have 4: "skip_ws ?t = CHR ''}'' # rest"
      using w3 by (simp add: skip_ws_all_ws) (simp add: skip_ws_def is_ws_def)
    have "parse_object (Suc m) (encode_str k @ '': '' @ enc v @ ?t) = Some ([(k, v)], rest)"
      unfolding parse_object_member[OF 3 vs] 4 by simp
    then show ?thesis
      by (simp add: Nil n kv del: parse_object.simps)
  next
    case (Cons kv' kvs')
    let ?tail = "intercalate (CHR '','' # w2)
        (map (\<lambda>(k, v). encode_str k @ '': '' @ enc v) (kv' # kvs')) @ w3 @ CHR ''}'' # rest"
    let ?t = "CHR '','' # w2 @ ?tail"
    have 3: "scan_once m (enc v @ ?t) = Some (v, ?t)"
      using Cons.prems(1)[of kv m ?t] mx value_end_comma by (simp add: kv)
    have 4: "skip_ws ?t = CHR '','' # (w2 @ ?tail)"
      by (simp add: skip_ws_def is_ws_def)
    have "value_start ?tail"
      by (cases kv'; cases kvs') (simp_all add: value_start_def encode_str_def is_ws_def)
    then have 5: "skip_ws (w2 @ ?tail) = ?tail"
      using w2 by (rule skip_ws_before_value[rotated])
    have 6: "parse_object m ?tail = Some (kvs, rest)"
      using Cons.IH[of m] Cons.prems(1,2) mxs Cons by simp
    have "parse_object (Suc m) (encode_str k @ '': '' @ enc v @ ?t) = Some ((k, v) # kvs, rest)"
      unfolding parse_object_member[OF 3 vs] 4 using 5 6 by simp
    then show ?thesis
      by (simp add: Cons n kv del: parse_object.simps)
  qed
qed

lemma update_fresh: "k \<notin> fst ` set al \<Longrightarrow> AList.update k v al = al @ [(k, v)]"
  by (induction al) auto

lemma foldl_dict_set_distinct:
  "distinct (map fst (acc @ kvs))
   \<Longrightarrow> foldl (\<lambda>d (k, v). dict_set d k v) acc kvs = acc @ kvs"
proof (induction kvs arbitrary: acc)
  case Nil
  then show ?case by simp
next
  case (Cons kv kvs)
  obtain k v where kv: "kv = (k, v)" by (cases kv)
  have fresh: "k \<notin> fst ` set acc" using Cons.prems by (auto simp: kv)
  have "distinct (map fst ((acc @ [(k, v)]) @ kvs))" using Cons.prems by (simp add: kv)
  from Cons.IH[OF this] show ?case
    by (simp add: kv dict_set_def update_fresh[OF fresh])
qed

lemma dict_of_pairs_distinct: "distinct (map fst kvs) \<Longrightarrow> dict_of_pairs kvs = kvs"
  using foldl_dict_set_distinct[of "[]" kvs] by (simp add: dict_of_pairs_def)

lemma scan_once_iterencode:
  "wf_json v \<Longrightarrow> jsize v \<le> n \<Longrightarrow> value_end rest
   \<Longrightarrow> scan_once n (iterencode ind lvl v @ rest) = Some (v, rest)"
proof (induction v arbitrary: n lvl rest)
  case JNull
  then obtain m where "n = Suc m" by (cases n) auto
  then show ?case by simp
next
  case (JBool b)
  then obtain m where "n = Suc m" by (cases n) auto
  then show ?case by simp
next
  case (JInt i)
  then obtain m where "n = Suc m" by (cases n) auto
  then show ?case using scan_once_int[OF JInt.prems(3)] by simp
next
  case (JStr s)
  then obtain m where "n = Suc m" by (cases n) auto
  then show ?case using scan_once_str by simp
next
  case (JArr xs)
  from JArr.prems(2) obtain m where n: "n = Suc m"
    and m: "sum_list (map (\<lambda>x. Suc (jsize x)) xs) \<le> m"
    by (cases n) auto
  show ?case
  proof (cases "xs = []")
    case True
    then show ?thesis by (simp add: n skip_ws_def is_ws_def)
  next
    case False
    obtain w2 where sep: "item_separator ind (Suc lvl) = CHR '','' # w2"
      and w2: "\<forall>c\<in>set w2. is_ws c"
      using item_separator_shape by blast
    let ?items = "intercalate (CHR '','' # w2) (map (iterencode ind (Suc lvl)) xs)
        @ newline_indent ind lvl @ CHR '']'' # rest"
    have enc: "\<And>x m r. x \<in> set xs \<Longrightarrow> jsize x \<le> m \<Longrightarrow> value_end r
        \<Longrightarrow> scan_once m (iterencode ind (Suc lvl) x @ r) = Some (x, r)"
      using JArr.IH JArr.prems(1) by simp
    have items: "parse_array m ?items = Some (xs, rest)"
      by (rule parse_array_items[OF enc value_start_iterencode False m w2 newline_indent_ws])
    have "value_start (intercalate (CHR '','' # w2) (map (iterencode ind (Suc lvl)) xs))"
      using False value_start_iterencode[of ind "Suc lvl"]
      by (intro value_start_intercalate) (simp_all add: hd_map)
    then have vs: "value_start ?items" by (rule value_start_append)
    have sk: "skip_ws (newline_indent ind (Suc lvl) @ ?items) = ?items"
      using newline_indent_ws vs by (rule skip_ws_before_value)
    have shape: "iterencode ind lvl (JArr xs) @ rest
        = CHR ''['' # (newline_indent ind (Suc lvl) @ ?items)"
      using False by (simp add: sep)
    show ?thesis
      unfolding shape n scan_once_array[OF sk vs] items by simp
  qed
next
  case (JObj kvs)
  from JObj.prems(2) obtain m where n: "n = Suc m"
    and m: "sum_list (map (\<lambda>kv. Suc (jsize (snd kv))) kvs) \<le> m"
    by (cases n) auto
  show ?case
  proof (cases "kvs = []")
    case True
    then show ?thesis by (simp add: n skip_ws_def is_ws_def)
  next
    case False
    obtain w2 where sep: "item_separator ind (Suc lvl) = CHR '','' # w2"
      and w2: "\<forall>c\<in>set w2. is_ws c"
      using item_separator_shape by blast
    let ?members = "intercalate (CHR '','' # w2)
        (map (\<lambda>(k, v). encode_str k @ '': '' @ iterencode ind (Suc lvl) v) kvs)"
    let ?items = "?members @ newline_indent ind lvl @ CHR ''}'' # rest"
    have enc: "\<And>kv m r. kv \<in> set kvs \<Longrightarrow> jsize (snd kv) \<le> m \<Longrightarrow> value_end r
        \<Longrightarrow> scan_once m (iterencode ind (Suc lvl) (snd kv) @ r) = Some (snd kv, r)"
    proof -
      fix kv m r
      assume a: "kv \<in> set kvs" "jsize (snd kv) \<le> m" "value_end r"
      have "snd kv \<in> Basic_BNFs.snds kv" by (cases kv) simp
      moreover have "wf_json (snd kv)" using JObj.prems(1) a(1) by simp
      ultimately show "scan_once m (iterencode ind (Suc lvl) (snd kv) @ r) = Some (snd kv, r)"
        using JObj.IH[OF a(1)] a(2,3) by blast
    qed
    have items: "parse_object m ?items = Some (kvs, rest)"
      by (rule parse_object_items[OF enc value_start_iterencode False m w2 newline_indent_ws])
    have "value_start ?members"
      using False
      by (intro value_start_intercalate)
         (simp_all add: hd_map value_start_def encode_str_def is_ws_def split: prod.splits)
    then have vs: "value_start ?items" by (rule value_start_append)
    have sk: "skip_ws (newline_indent ind (Suc lvl) @ ?items) = ?items"
      using newline_indent_ws vs by (rule skip_ws_before_value)
    have d: "dict_of_pairs kvs = kvs"
      using JObj.prems(1) by (simp add: dict_of_pairs_distinct)
    have shape: "iterencode ind lvl (JObj kvs) @ rest
        = CHR ''{'' # (newline_indent ind (Suc lvl) @ ?items)"
      using False by (simp add: sep)
    show ?thesis
      unfolding shape n scan_once_object[OF sk vs] items by (simp add: d)
  qed
qed

lemma intercalate_length:
  "sep \<noteq> [] \<Longrightarrow> sum_list (map length ts) + length ts \<le> Suc (length (intercalate sep ts))"
proof (induction sep ts rule: intercalate.induct)
  case (3 sep x y ys)
  have pos: "0 < length sep" using "3.prems" by simp
  have ih: "sum_list (map length (y # ys)) + length (y # ys)
      \<le> Suc (length (intercalate sep (y # ys)))"
    using "3.IH"[OF "3.prems"] .
  have l: "length (intercalate sep (x # y # ys))
      = length x + length sep + length (intercalate sep (y # ys))"
    by simp
  have s: "sum_list (map length (x # y # ys)) + length (x # y # ys)
      = length x + Suc (sum_list (map length (y # ys)) + length (y # ys))"
    by simp
  show ?case unfolding l s using ih pos by linarith
qed simp_all

lemma sum_jsize_le:
  assumes "\<And>x. x \<in> set xs \<Longrightarrow> f x \<le> length (enc x)"
  shows "sum_list (map (\<lambda>x. Suc (f x)) xs)
         \<le> sum_list (map length (map enc xs)) + length (map enc xs)"
  using assms
proof (induction xs)
  case Nil
  then show ?case by simp
next
  case (Cons a xs)
  have 1: "f a \<le> length (enc a)" using Cons.prems by simp
  have 2: "sum_list (map (\<lambda>x. Suc (f x)) xs)
      \<le> sum_list (map length (map enc xs)) + length (map enc xs)"
    using Cons.IH Cons.prems by simp
  have l: "sum_list (map (\<lambda>x. Suc (f x)) (a # xs)) = Suc (f a) + sum_list (map (\<lambda>x. Suc (f x)) xs)"
    by simp
  have r: "sum_list (map length (map enc (a # xs))) + length (map enc (a # xs))
      = Suc (length (enc a)) + (sum_list (map length (map enc xs)) + length (map enc xs))"
    by simp
  show ?case unfolding l r using 1 2 by linarith
qed

lemma container_length:
  assumes "\<And>x. x \<in> set xs \<Longrightarrow> f x \<le> length (enc x)" and "sep \<noteq> []"
  shows "Suc (sum_list (map (\<lambda>x. Suc (f x)) xs)) \<le> length (a # w1 @ intercalate sep (map enc xs) @ w3 @ [b])"
proof -
  have "sum_list (map (\<lambda>x. Suc (f x)) xs) \<le> Suc (length (intercalate sep (map enc xs)))"
    using sum_jsize_le[of xs f enc, OF assms(1)] intercalate_length[OF assms(2), of "map enc xs"]
    by linarith
  then show ?thesis by simp
qed

lemma item_separator_nonempty: "item_separator ind lvl \<noteq> []"
  by (cases ind) (simp_all add: item_separator_def)

lemma jsize_le_length: "jsize v \<le> length (iterencode ind lvl v)"
proof (induction v arbitrary: lvl)
  case (JInt i)
  then show ?case using show_int_first[of i] by auto
next
  case (JStr s)
  then show ?case by (simp add: encode_str_def)
next
  case (JArr xs)
  show ?case
  proof (cases "xs = []")
    case True
    then show ?thesis by simp
  next
    case False
    have "Suc (sum_list (map (\<lambda>x. Suc (jsize x)) xs))
        \<le> length (CHR ''['' # newline_indent ind (Suc lvl)
              @ intercalate (item_separator ind (Suc lvl)) (map (iterencode ind (Suc lvl)) xs)
              @ newline_indent ind lvl @ '']'')"
      using JArr.IH by (intro container_length item_separator_nonempty) simp
    then show ?thesis using False by simp
  qed
next
  case (JObj kvs)
  show ?case
  proof (cases "kvs = []")
    case True
    then show ?thesis by simp
  next
    case False
    have le: "\<And>kv. kv \<in> set kvs \<Longrightarrow> jsize (snd kv)
        \<le> length ((\<lambda>(k, v). encode_str k @ '': '' @ iterencode ind (Suc lvl) v) kv)"
    proof -
      fix kv assume a: "kv \<in> set kvs"
      have "snd kv \<in> Basic_BNFs.snds kv" by (cases kv) simp
      from JObj.IH[OF a this, of "Suc lvl"] show "jsize (snd kv)
        \<le> length ((\<lambda>(k, v). encode_str k @ '': '' @ iterencode ind (Suc lvl) v) kv)"
        by (cases kv) simp
    qed
    have "Suc (sum_list (map (\<lambda>kv. Suc (jsize (snd kv))) kvs))
        \<le> length (CHR ''{'' # newline_indent ind (Suc lvl)
              @ intercalate (item_separator ind (Suc lvl))
                  (map (\<lambda>(k, v). encode_str k @ '': '' @ iterencode ind (Suc lvl) v) kvs)
              @ newline_indent ind lvl @ ''}'')"
      using le by (intro container_length item_separator_nonempty)
    then show ?thesis using False by simp
  qed
qed simp_all

lemma json_loads_iterencode:
  assumes "wf_json v" and "\<forall>c\<in>set ws. is_ws c"
  shows "json_loads (iterencode ind 0 v @ ws) = Some v"
proof -
  let ?s = "iterencode ind 0 v @ ws"
  have start: "skip_ws ?s = ?s"
    using value_start_append[OF value_start_iterencode] by (rule skip_ws_value_start)
  have "jsize v \<le> length ?s"
    using jsize_le_length[of v ind 0] by simp
  moreover have "value_end ws"
    using assms(2) by (cases ws) (simp_all add: value_end_def)
  ultimately have scan: "scan_once (length ?s) ?s = Some (v, ws)"
    using assms(1) by (intro scan_once_iterencode)
  have "skip_ws ws = []"
    using skip_ws_all_ws[OF assms(2), of "[]"] by (simp add: skip_ws_def)
  then show ?thesis
    unfolding json_loads_def start scan by simp
qed





lemma wf_json_dict_set:
  assumes "wf_json (JObj d)" and "wf_json v"
  shows "wf_json (JObj (dict_set d k v))"
proof -
  have "\<forall>kv\<in>set (AList.update k v d). wf_json (snd kv)"
    using assms by (induction d) auto
  then show ?thesis
    using assms(1) by (simp add: dict_set_def distinct_update)
qed






section \<open>Properties of the command lines\<close>

lemma kv_flags_str:
  "kv_flags flag sep (map (\<lambda>(k, v). (k, JStr v)) kvs)
     = Inr (concat (map (\<lambda>(k, v). [flag, k @ sep @ v]) kvs))"
  by (induction kvs) auto

lemma mapping_flags_typed:
  "mapping_flags flag sep (optional str_dict m) = Inr (flag_words flag sep m)"
  by (cases m) (simp_all add: str_dict_def flag_words_def kv_flags_str)

lemma arg_strings_str: "arg_strings (map JStr xs) = Inr xs"
  by (induction xs) auto

lemma arg_words_typed: "arg_words (str_list xs) = Inr xs"
  by (simp add: str_list_def arg_strings_str)

lemma wasmer_cmd_typed:
  assumes "dict_get config ''env'' JNull = optional str_dict env"
    and "dict_get config ''preopens'' JNull = optional str_dict preopens"
    and "dict_get config ''args'' JNull = optional str_list args"
  shows "wasmer_cmd filepath config
         = Inr ([''wasmer'', ''run'', filepath] @ flag_words ''--env'' ''='' env
                @ flag_words ''--mapdir'' '':'' preopens @ dashed_args args)"
  using assms
  by (cases args)
     (simp_all add: wasmer_cmd_def mapping_flags_typed dashed_args_def str_list_def
        arg_strings_str)

lemma wasmtime_cmd_typed:
  assumes "dict_get config ''env'' JNull = optional str_dict env"
    and "dict_get config ''preopens'' JNull = optional str_dict preopens"
    and "dict_get config ''args'' JNull = optional str_list args"
  shows "wasmtime_cmd filepath config
         = Inr ([''wasmtime'', ''run''] @ flag_words ''--env'' ''='' env
                @ flag_words ''--mapdir'' ''::'' preopens @ [filepath] @ dashed_args args)"
  using assms
  by (cases args)
     (simp_all add: wasmtime_cmd_def mapping_flags_typed dashed_args_def str_list_def
        arg_strings_str)

lemma wasmedge_cmd_typed:
  assumes "dict_get config ''env'' JNull = optional str_dict env"
    and "dict_get config ''preopens'' JNull = optional str_dict preopens"
    and "dict_get config ''args'' JNull = optional str_list args"
  shows "wasmedge_cmd so config
         = Inr ([''wasmedge''] @ flag_words ''--env'' ''='' env
                @ flag_words ''--dir'' '':'' preopens @ [so] @ plain_args args)"
  using assms
  by (cases args)
     (simp_all add: wasmedge_cmd_def mapping_flags_typed plain_args_def str_list_def
        arg_strings_str)

lemma flag_words_entry:
  assumes "(g, h) \<in> set kvs"
  shows "\<exists>a b. flag_words flag sep (Some kvs) = a @ [flag, g @ sep @ h] @ b"
proof -
  from assms obtain xs ys where "kvs = xs @ (g, h) # ys"
    by (auto simp: in_set_conv_decomp)
  then have "flag_words flag sep (Some kvs)
      = flag_words flag sep (Some xs) @ [flag, g @ sep @ h] @ flag_words flag sep (Some ys)"
    by (simp add: flag_words_def)
  then show ?thesis by blast
qed

text \<open>
  C7. For a record whose \<^verbatim>\<open>preopens\<close> maps guest path \<open>g\<close> to host path \<open>h\<close>, the wasmer
  command holds the words \<^verbatim>\<open>--mapdir\<close>, \<open>g:h\<close> and the wasmtime command the words
  \<^verbatim>\<open>--mapdir\<close>, \<open>g::h\<close>; the two mapping words are never the same string.
\<close>

theorem mapdir_separator_per_adapter:
  assumes "dict_get config ''env'' JNull = optional str_dict env"
    and "dict_get config ''preopens'' JNull = str_dict preopens"
    and "dict_get config ''args'' JNull = optional str_list args"
    and "(g, h) \<in> set preopens"
  shows "(\<exists>a b. wasmer_cmd filepath config = Inr (a @ [''--mapdir'', g @ '':'' @ h] @ b))
       \<and> (\<exists>a b. wasmtime_cmd filepath config = Inr (a @ [''--mapdir'', g @ ''::'' @ h] @ b))
       \<and> g @ '':'' @ h \<noteq> g @ ''::'' @ h"
proof -
  have pre: "dict_get config ''preopens'' JNull = optional str_dict (Some preopens)"
    using assms(2) by simp
  obtain a b where ab: "flag_words ''--mapdir'' '':'' (Some preopens)
      = a @ [''--mapdir'', g @ '':'' @ h] @ b"
    using flag_words_entry[OF assms(4)] by blast
  obtain c d where cd: "flag_words ''--mapdir'' ''::'' (Some preopens)
      = c @ [''--mapdir'', g @ ''::'' @ h] @ d"
    using flag_words_entry[OF assms(4)] by blast
  have "wasmer_cmd filepath config
      = Inr (([''wasmer'', ''run'', filepath] @ flag_words ''--env'' ''='' env @ a)
             @ [''--mapdir'', g @ '':'' @ h] @ (b @ dashed_args args))"
    using wasmer_cmd_typed[OF assms(1) pre assms(3), of filepath] ab by simp
  then have 1: "\<exists>a b. wasmer_cmd filepath config = Inr (a @ [''--mapdir'', g @ '':'' @ h] @ b)"
    by blast
  have "wasmtime_cmd filepath config
      = Inr (([''wasmtime'', ''run''] @ flag_words ''--env'' ''='' env @ c)
             @ [''--mapdir'', g @ ''::'' @ h] @ (d @ [filepath] @ dashed_args args))"
    using wasmtime_cmd_typed[OF assms(1) pre assms(3), of filepath] cd by simp
  then have 2: "\<exists>a b. wasmtime_cmd filepath config = Inr (a @ [''--mapdir'', g @ ''::'' @ h] @ b)"
    by blast
  have 3: "g @ '':'' @ h \<noteq> g @ ''::'' @ h"
  proof
    assume "g @ '':'' @ h = g @ ''::'' @ h"
    then have "length (g @ '':'' @ h) = length (g @ ''::'' @ h)" by (rule arg_cong)
    then show False by simp
  qed
  from 1 2 3 show ?thesis by blast
qed

section \<open>Properties of grading and of the adapters\<close>

lemma map_of_set_defaults:
  "k \<noteq> ''env'' \<Longrightarrow> k \<noteq> ''args'' \<Longrightarrow> map_of (set_defaults d) k = map_of d k"
  by (simp add: set_defaults_def dict_set_def Let_def update_conv')


lemma map_of_set_defaults_env:
  "map_of (set_defaults d) ''env''
     = (if dict_get d ''env'' JNull = JNull then Some (JObj []) else map_of d ''env'')"
  by (simp add: set_defaults_def dict_set_def dict_get_def Let_def update_conv')

lemma map_of_set_defaults_args:
  "map_of (set_defaults d) ''args''
     = (if dict_get d ''args'' JNull = JNull then Some (JArr []) else map_of d ''args'')"
  by (simp add: set_defaults_def dict_set_def dict_get_def Let_def update_conv')


lemma assert_result_typed:
  assumes "dict_get config ''stdout'' (JStr []) = JStr eo"
    and "dict_get config ''stderr'' (JStr []) = JStr ee"
    and "dict_get config ''exitCode'' (JInt 0) = JInt ec"
  shows "assert_result r config
         = (if stdout r = eo \<and> stderr r = ee \<and> returncode r = ec then Inr ()
            else Inl AssertionError)"
  using assms by (simp add: assert_result_def)

text \<open>
  C1. Grading is \<^verbatim>\<open>test\<close>: it returns normally (the cell is marked ok) exactly when the
  program completed within the timeout and its output, error output and exit status
  equal the expected ones, with the defaults of \<^verbatim>\<open>expected.get\<close>; a timeout raises
  \<^verbatim>\<open>TimeoutExpired\<close> and a mismatch \<^verbatim>\<open>AssertionError\<close>.
\<close>

theorem grading_pass_iff:
  assumes "dict_get config ''stdout'' (JStr []) = JStr eo"
    and "dict_get config ''stderr'' (JStr []) = JStr ee"
    and "dict_get config ''exitCode'' (JInt 0) = JInt ec"
    and "subprocess_run w cmd cwd (dict_get config ''stdin'' JNull)
           (dict_get config ''timeout'' (JInt 5)) = Some ro"
  shows "(test w cmd config cwd = Some (Inr ())
            \<longleftrightarrow> (\<exists>r. ro = Inr r \<and> stdout r = eo \<and> stderr r = ee \<and> returncode r = ec))
       \<and> (ro = Inl TimeoutExpired \<longrightarrow> test w cmd config cwd = Some (Inl TimeoutExpired))
       \<and> (\<forall>r. ro = Inr r \<and> \<not> (stdout r = eo \<and> stderr r = ee \<and> returncode r = ec)
              \<longrightarrow> test w cmd config cwd = Some (Inl AssertionError))"
proof (cases ro)
  case (Inl e)
  then show ?thesis using assms(4) by (simp add: test_def)
next
  case (Inr r)
  then show ?thesis
    using assms(4) assert_result_typed[OF assms(1-3), of r] by (simp add: test_def)
qed

text \<open>
  C2 (as the code has it). A cell whose adapter returns or raises an \<^verbatim>\<open>Exception\<close> is
  reported by one of two marks: ok when the adapter returned, FAILED when it raised, with
  nothing in the report that depends on which exception it was.
\<close>

theorem cell_report_two_valued:
  assumes "rmtree_mkdir w (resets st) ''scratch'' = None"
    and "outcome (run_test a w (abspath w filepath) config workdir) = Some res"
    and "\<forall>e. res = Inl e \<longrightarrow> is_Exception e"
  shows "fst (run_cell w filepath workdir (name, a) config st) = Returned
       \<and> out (snd (snd (run_cell w filepath workdir (name, a) config st)))
           = out st @ [''  '', name, '' ... '',
                       (if res = Inr () then ok_mark else failed_mark), [CHR 0x0A]]"
proof (cases res)
  case (Inl e)
  then have "is_Exception e" using assms(3) by simp
  then show ?thesis
    using assms(1,2) Inl by (simp add: run_cell_def ensure_empty_dir_def Let_def)
next
  case (Inr u)
  then show ?thesis
    using assms(1,2) by (simp add: run_cell_def ensure_empty_dir_def Let_def)
qed

text \<open>
  C9 (as the code has it). The wasmer, wasmtime and wasmedge adapters leave the record as
  it is. The deno and node adapters leave it as it is or store the defaults in it: an
  empty mapping for an \<^verbatim>\<open>env\<close> that is absent or null, an empty list for such an
  \<^verbatim>\<open>args\<close>; every other field, \<^verbatim>\<open>preopens\<close> among them, keeps its value.
\<close>

theorem adapters_store_defaults_only:
  "(a \<noteq> Deno \<and> a \<noteq> Node \<longrightarrow> config_after (run_test a w filepath config cwd) = config)
   \<and> (config_after (run_test a w filepath config cwd) = config
        \<or> (\<exists>d. config = JObj d
               \<and> config_after (run_test a w filepath config cwd) = JObj (set_defaults d)))
   \<and> (\<forall>k. k \<noteq> ''env'' \<and> k \<noteq> ''args'' \<longrightarrow> map_of (set_defaults d) k = map_of d k)
   \<and> map_of (set_defaults d) ''env''
       = (if dict_get d ''env'' JNull = JNull then Some (JObj []) else map_of d ''env'')
   \<and> map_of (set_defaults d) ''args''
       = (if dict_get d ''args'' JNull = JNull then Some (JArr []) else map_of d ''args'')"
proof -
  have 1: "a \<noteq> Deno \<and> a \<noteq> Node \<longrightarrow> config_after (run_test a w filepath config cwd) = config"
    by (cases a)
       (auto simp: test_wasmer_def test_wasmtime_def test_wasmedge_def raised_def
          split: json.splits sum.splits option.splits)
  have 2: "config_after (run_test a w filepath config cwd) = config
        \<or> (\<exists>d. config = JObj d
               \<and> config_after (run_test a w filepath config cwd) = JObj (set_defaults d))"
  proof (cases "a = Deno \<or> a = Node")
    case True
    then show ?thesis
      by (auto simp: test_deno_def test_node_def raised_def Let_def
            split: json.splits option.splits)
  next
    case False
    then show ?thesis using 1 by simp
  qed
  show ?thesis
    using 1 2 map_of_set_defaults[of _ d] map_of_set_defaults_env[of d]
      map_of_set_defaults_args[of d]
    by blast
qed

text \<open>
  C10 (as the code has it). The wasmer and wasmtime adapters create no file. The deno and
  node adapters write their glue program to the fixed relative paths \<^verbatim>\<open>.deno.ts\<close> and
  \<^verbatim>\<open>.node.js\<close>, which the harness resolves against its own current directory, and the
  wasmedge adapter has the object written to the path of the module with the extension
  \<^verbatim>\<open>.so\<close>. None of the paths depends on the working directory of the case.
\<close>

theorem adapter_files_outside_workspace:
  "created (test_wasmer w filepath config cwd) = []
   \<and> created (test_wasmtime w filepath config cwd) = []
   \<and> created (test_deno w filepath config cwd)
       = (if write_text w ''.deno.ts'' = None then [''.deno.ts''] else [])
   \<and> created (test_node w filepath config cwd)
       = (if write_text w ''.node.js'' = None then [''.node.js''] else [])
   \<and> created (test_wasmedge w filepath config cwd)
       = (if check_call w (wasmedgec_cmd filepath) = Some (Inr ())
          then [fst (splitext filepath) @ ''.so''] else [])
   \<and> abspath w ''.deno.ts'' = normpath (path_join2 (getcwd w) ''.deno.ts'')
   \<and> abspath w ''.node.js'' = normpath (path_join2 (getcwd w) ''.node.js'')"
proof -
  have 1: "created (test_wasmer w filepath config cwd) = []"
    by (auto simp: test_wasmer_def raised_def split: json.splits sum.splits)
  have 2: "created (test_wasmtime w filepath config cwd) = []"
    by (auto simp: test_wasmtime_def raised_def split: json.splits sum.splits)
  have 3: "created (test_deno w filepath config cwd)
       = (if write_text w ''.deno.ts'' = None then [''.deno.ts''] else [])"
    by (auto simp: test_deno_def raised_def Let_def split: json.splits option.splits)
  have 4: "created (test_node w filepath config cwd)
       = (if write_text w ''.node.js'' = None then [''.node.js''] else [])"
    by (auto simp: test_node_def raised_def Let_def split: json.splits option.splits)
  have 5: "created (test_wasmedge w filepath config cwd)
       = (if check_call w (wasmedgec_cmd filepath) = Some (Inr ())
          then [fst (splitext filepath) @ ''.so''] else [])"
    by (auto simp: test_wasmedge_def raised_def wasmedge_so_def
          split: json.splits sum.splits option.splits)
  have 6: "abspath w ''.deno.ts'' = normpath (path_join2 (getcwd w) ''.deno.ts'')"
    by (simp add: abspath_def)
  have 7: "abspath w ''.node.js'' = normpath (path_join2 (getcwd w) ''.node.js'')"
    by (simp add: abspath_def)
  from 1 2 3 4 5 6 7 show ?thesis by blast
qed




section \<open>Properties of the matrix\<close>

lemma for_inputs_append:
  "for_inputs w (xs @ ys) st
     = (case for_inputs w xs st of (Returned, st') \<Rightarrow> for_inputs w ys st' | r \<Rightarrow> r)"
proof (induction xs arbitrary: st)
  case Nil
  then show ?case by simp
next
  case (Cons x xs)
  show ?case
  proof (cases "run_case w x st")
    case (Pair s st')
    then show ?thesis using Cons.IH[of st'] by (cases s) simp_all
  qed
qed

lemma run_case_unresolved:
  "glob w (record_pattern filepath) True = [] \<Longrightarrow> run_case w filepath st = (Raised IndexError, st)"
  by (simp add: run_case_def resolve_config_def)

text \<open>
  C3 (as the code has it). The record of a module is the first file the pattern matches,
  whatever else matches. When nothing matches, \<^verbatim>\<open>matches[0]\<close> raises \<^verbatim>\<open>IndexError\<close>,
  which nothing catches: the run ends there, in the state the modules before it left,
  with no row for that module or for any module after it.
\<close>

theorem resolution_first_match_or_abort:
  "(glob w (record_pattern filepath) True = []
      \<longrightarrow> resolve_config w filepath = Inl IndexError
        \<and> for_inputs w (before @ filepath # after) st
            = (case for_inputs w before st of
                 (Returned, st') \<Rightarrow> (Raised IndexError, st')
               | r \<Rightarrow> r))
   \<and> (\<forall>m ms. glob w (record_pattern filepath) True = m # ms
      \<longrightarrow> resolve_config w filepath = load_config w m)"
proof -
  have 1: "resolve_config w filepath = Inl IndexError"
    if "glob w (record_pattern filepath) True = []"
    using that by (simp add: resolve_config_def)
  have 2: "for_inputs w (before @ filepath # after) st
            = (case for_inputs w before st of
                 (Returned, st') \<Rightarrow> (Raised IndexError, st')
               | r \<Rightarrow> r)"
    if "glob w (record_pattern filepath) True = []"
    unfolding for_inputs_append[of w before "filepath # after" st]
    using run_case_unresolved[OF that]
    by (simp split: prod.splits status.splits)
  have 3: "\<forall>m ms. glob w (record_pattern filepath) True = m # ms
      \<longrightarrow> resolve_config w filepath = load_config w m"
    by (simp add: resolve_config_def)
  from 1 2 3 show ?thesis by blast
qed

section \<open>The record through the encoder and back\<close>

lemma wf_json_set_defaults:
  assumes "wf_json (JObj d)"
  shows "wf_json (JObj (set_defaults d))"
proof -
  have e: "wf_json (JObj [])" and a: "wf_json (JArr [])" by simp_all
  have 1: "wf_json (JObj (dict_set d ''env'' (JObj [])))"
    using assms e by (rule wf_json_dict_set)
  have 2: "wf_json (JObj (dict_set d ''args'' (JArr [])))"
    using assms a by (rule wf_json_dict_set)
  have 3: "wf_json (JObj (dict_set (dict_set d ''env'' (JObj [])) ''args'' (JArr [])))"
    using 1 a by (rule wf_json_dict_set)
  show ?thesis
    using assms 1 2 3 by (simp add: set_defaults_def Let_def del: wf_json.simps)
qed

lemma json_loads_dumps_compact:
  "wf_json v \<Longrightarrow> json_loads (json_dumps None False v) = Some v"
  using json_loads_iterencode[of v "[]" None] by (simp add: json_dumps_def)

lemma set_defaults_args_typed:
  assumes "dict_get d ''args'' JNull = optional str_list args"
  shows "dict_get (set_defaults d) ''args'' JNull = str_list (plain_args args)"
proof (cases args)
  case None
  then show ?thesis
    using assms map_of_set_defaults_args[of d]
    by (simp add: dict_get_def plain_args_def str_list_def)
next
  case (Some xs)
  then have "dict_get d ''args'' JNull \<noteq> JNull" using assms by (simp add: str_list_def)
  then show ?thesis
    using assms Some map_of_set_defaults_args[of d]
    by (simp add: dict_get_def plain_args_def)
qed

lemma glue_args_typed:
  assumes "wf_json (JObj d)" and "dict_get d ''args'' JNull = optional str_list args"
  shows "glue_args [json_dumps None False (JObj (set_defaults d)), filepath]
         = Some (filepath # plain_args args)"
proof -
  have "json_loads (json_dumps None False (JObj (set_defaults d))) = Some (JObj (set_defaults d))"
    using wf_json_set_defaults[OF assms(1)] by (rule json_loads_dumps_compact)
  then show ?thesis
    using set_defaults_args_typed[OF assms(2)]
    by (simp add: glue_args_def str_list_def arg_strings_str)
qed

text \<open>
  C6 (as the code has it). For a record with typed fields, the command of every adapter
  names the guest program and puts the record's arguments after it, at the end: wasmer
  and wasmtime name the module and separate the arguments by \<^verbatim>\<open>--\<close>, wasmedge names
  the object compiled from the module, and the glue programs of deno and node start the
  guest with the module followed by the arguments.
\<close>

theorem guest_program_then_args:
  assumes "wf_json (JObj config)"
    and "dict_get config ''env'' JNull = optional str_dict env"
    and "dict_get config ''preopens'' JNull = optional str_dict preopens"
    and "dict_get config ''args'' JNull = optional str_list args"
  shows "wasmer_cmd filepath config
           = Inr ([''wasmer'', ''run'', filepath] @ flag_words ''--env'' ''='' env
                  @ flag_words ''--mapdir'' '':'' preopens @ dashed_args args)
       \<and> wasmtime_cmd filepath config
           = Inr ([''wasmtime'', ''run''] @ flag_words ''--env'' ''='' env
                  @ flag_words ''--mapdir'' ''::'' preopens @ [filepath] @ dashed_args args)
       \<and> wasmedge_cmd (wasmedge_so filepath) config
           = Inr ([''wasmedge''] @ flag_words ''--env'' ''='' env
                  @ flag_words ''--dir'' '':'' preopens @ [wasmedge_so filepath] @ plain_args args)
       \<and> glue_args (drop 6 (deno_cmd w filepath (set_defaults config)))
           = Some (filepath # plain_args args)
       \<and> glue_args (drop 5 (node_cmd w filepath (set_defaults config)))
           = Some (filepath # plain_args args)"
proof -
  have d: "drop 6 (deno_cmd w filepath (set_defaults config))
      = [json_dumps None False (JObj (set_defaults config)), filepath]"
    by (simp add: deno_cmd_def)
  have n: "drop 5 (node_cmd w filepath (set_defaults config))
      = [json_dumps None False (JObj (set_defaults config)), filepath]"
    by (simp add: node_cmd_def)
  show ?thesis
    unfolding d n
    using wasmer_cmd_typed[OF assms(2-4)] wasmtime_cmd_typed[OF assms(2-4)]
      wasmedge_cmd_typed[OF assms(2-4)] glue_args_typed[OF assms(1,4)]
    by simp
qed




section \<open>The theorems at concrete inputs\<close>

theorem mapdir_separator_per_adapter_witness:
  "wasmer_cmd ''/t/a.wasm''
      [(''preopens'', JObj [(''/data'', JStr ''fixtures'')]), (''args'', JArr [JStr ''x''])]
     = Inr [''wasmer'', ''run'', ''/t/a.wasm'', ''--mapdir'', ''/data:fixtures'', ''--'', ''x'']
   \<and> wasmtime_cmd ''/t/a.wasm''
      [(''preopens'', JObj [(''/data'', JStr ''fixtures'')]), (''args'', JArr [JStr ''x''])]
     = Inr [''wasmtime'', ''run'', ''--mapdir'', ''/data::fixtures'', ''/t/a.wasm'', ''--'', ''x'']
   \<and> ''/data:fixtures'' \<noteq> ''/data::fixtures''"
  using mapdir_separator_per_adapter[of
      "[(''preopens'', JObj [(''/data'', JStr ''fixtures'')]), (''args'', JArr [JStr ''x''])]"
      None "[(''/data'', ''fixtures'')]" "Some [''x'']" "''/data''" "''fixtures''" "''/t/a.wasm''"]
  by (simp add: dict_get_def str_dict_def str_list_def wasmer_cmd_def wasmtime_cmd_def)

text \<open>
  A record without expectations: the quiet guest passes by the defaults, the guest that
  prints \<^verbatim>\<open>x\<close> fails the comparison, and the guest that takes 7 seconds times out.
\<close>

theorem grading_pass_iff_witness:
  "test quiet_world [''wasmer'', ''run'', ''/t/a.wasm''] [] ''/tmp/tmpabc'' = Some (Inr ())
   \<and> test chatty_world [''wasmer'', ''run'', ''/t/a.wasm''] [] ''/tmp/tmpabc''
       = Some (Inl AssertionError)
   \<and> test slow_world [''wasmer'', ''run'', ''/t/a.wasm''] [] ''/tmp/tmpabc''
       = Some (Inl TimeoutExpired)"
proof -
  have q: "subprocess_run quiet_world [''wasmer'', ''run'', ''/t/a.wasm''] ''/tmp/tmpabc''
             (dict_get [] ''stdin'' JNull) (dict_get [] ''timeout'' (JInt 5))
           = Some (Inr \<lparr>stdout = [], stderr = [], returncode = 0\<rparr>)"
    by (simp add: subprocess_run_def dict_get_def quiet_world_def example_world_def
          exits_with_def)
  have c: "subprocess_run chatty_world [''wasmer'', ''run'', ''/t/a.wasm''] ''/tmp/tmpabc''
             (dict_get [] ''stdin'' JNull) (dict_get [] ''timeout'' (JInt 5))
           = Some (Inr \<lparr>stdout = ''x'', stderr = [], returncode = 0\<rparr>)"
    by (simp add: subprocess_run_def dict_get_def chatty_world_def example_world_def
          exits_with_def)
  have s: "subprocess_run slow_world [''wasmer'', ''run'', ''/t/a.wasm''] ''/tmp/tmpabc''
             (dict_get [] ''stdin'' JNull) (dict_get [] ''timeout'' (JInt 5))
           = Some (Inl TimeoutExpired)"
    by (simp add: subprocess_run_def dict_get_def slow_world_def example_world_def)
  have d: "dict_get [] ''stdout'' (JStr []) = JStr []" "dict_get [] ''stderr'' (JStr []) = JStr []"
    "dict_get [] ''exitCode'' (JInt 0) = JInt 0"
    by (simp_all add: dict_get_def)
  show ?thesis
    using grading_pass_iff[OF d q] grading_pass_iff[OF d c] grading_pass_iff[OF d s]
    by simp
qed

theorem cell_report_two_valued_witness:
  "fst (run_cell chatty_world ''target/a.wasm'' ''/tmp/tmpabc'' (''wasmer'', Wasmer) (JObj []) start)
     = Returned
   \<and> out (snd (snd (run_cell chatty_world ''target/a.wasm'' ''/tmp/tmpabc'' (''wasmer'', Wasmer)
                       (JObj []) start)))
     = [''  '', ''wasmer'', '' ... '', failed_mark, [CHR 0x0A]]"
proof -
  have r: "rmtree_mkdir chatty_world (resets start) ''scratch'' = None"
    by (simp add: chatty_world_def example_world_def)
  have o: "outcome (run_test Wasmer chatty_world (abspath chatty_world ''target/a.wasm'') (JObj [])
             ''/tmp/tmpabc'') = Some (Inl AssertionError)"
    by code_simp
  have e: "\<forall>e. (Inl AssertionError :: exn + unit) = Inl e \<longrightarrow> is_Exception e"
    by simp
  show ?thesis
    using cell_report_two_valued[OF r o e, of "''wasmer''"] by (simp add: start_def)
qed

theorem adapters_store_defaults_only_witness:
  "config_after (run_test Wasmer quiet_world ''/t/a.wasm'' (JObj [(''preopens'', JObj [])]) ''/tmp/tmpabc'')
     = JObj [(''preopens'', JObj [])]
   \<and> map_of (set_defaults [(''preopens'', JObj [])]) ''preopens'' = Some (JObj [])
   \<and> map_of (set_defaults [(''preopens'', JObj [])]) ''env'' = Some (JObj [])
   \<and> map_of (set_defaults [(''preopens'', JObj [])]) ''args'' = Some (JArr [])"
  using adapters_store_defaults_only[of Wasmer quiet_world "''/t/a.wasm''"
      "JObj [(''preopens'', JObj [])]" "''/tmp/tmpabc''" "[(''preopens'', JObj [])]"]
  by (simp add: dict_get_def)

theorem adapter_files_outside_workspace_witness:
  "created (test_deno quiet_world ''/t/a.wasm'' (JObj []) ''/tmp/tmpabc'') = [''.deno.ts'']
   \<and> created (test_wasmedge quiet_world ''/t/a.wasm'' (JObj []) ''/tmp/tmpabc'') = [''/t/a.so'']"
proof -
  have 1: "write_text quiet_world ''.deno.ts'' = None"
    by (simp add: quiet_world_def example_world_def)
  have 2: "check_call quiet_world (wasmedgec_cmd ''/t/a.wasm'') = Some (Inr ())"
    by (simp add: check_call_def quiet_world_def example_world_def exits_with_def)
  have 3: "fst (splitext ''/t/a.wasm'') @ ''.so'' = ''/t/a.so''"
    by code_simp
  show ?thesis
    using adapter_files_outside_workspace[of quiet_world "''/t/a.wasm''" "JObj []" "''/tmp/tmpabc''"]
    by (simp add: 1 2 3)
qed


theorem resolution_first_match_or_abort_witness:
  "resolve_config matrix_world ''target/wasm32-wasi/debug/a.wasm'' = Inl IndexError
   \<and> for_inputs matrix_world
        [''target/wasm32-wasi/debug/a.wasm'', ''target/wasm32-wasi/debug/c.wasm''] start
       = (Raised IndexError, start)
   \<and> resolve_config matrix_world ''target/wasm32-wasi/debug/b.wasm''
       = load_config matrix_world ''target/wasm32-wasi/debug/deps/b.json''"
proof -
  have a: "glob matrix_world (record_pattern ''target/wasm32-wasi/debug/a.wasm'') True = []"
    by code_simp
  have b: "glob matrix_world (record_pattern ''target/wasm32-wasi/debug/b.wasm'') True
           = [''target/wasm32-wasi/debug/deps/b.json'', ''target/wasm32-wasi/debug/old/b.json'']"
    by code_simp
  show ?thesis
    using resolution_first_match_or_abort[of matrix_world "''target/wasm32-wasi/debug/a.wasm''"
        "[]" "[''target/wasm32-wasi/debug/c.wasm'']" start]
      resolution_first_match_or_abort[of matrix_world "''target/wasm32-wasi/debug/b.wasm''" "[]" "[]"
        start]
    by (simp add: a b)
qed

theorem guest_program_then_args_witness:
  "wf_json (JObj [(''args'', JArr [JStr ''x''])])
   \<and> wasmer_cmd ''/t/a.wasm'' [(''args'', JArr [JStr ''x''])]
       = Inr [''wasmer'', ''run'', ''/t/a.wasm'', ''--'', ''x'']
   \<and> wasmtime_cmd ''/t/a.wasm'' [(''args'', JArr [JStr ''x''])]
       = Inr [''wasmtime'', ''run'', ''/t/a.wasm'', ''--'', ''x'']
   \<and> wasmedge_cmd (wasmedge_so ''/t/a.wasm'') [(''args'', JArr [JStr ''x''])]
       = Inr [''wasmedge'', wasmedge_so ''/t/a.wasm'', ''x'']
   \<and> glue_args (drop 6 (deno_cmd quiet_world ''/t/a.wasm''
                          (set_defaults [(''args'', JArr [JStr ''x''])])))
       = Some [''/t/a.wasm'', ''x'']
   \<and> glue_args (drop 5 (node_cmd quiet_world ''/t/a.wasm''
                          (set_defaults [(''args'', JArr [JStr ''x''])])))
       = Some [''/t/a.wasm'', ''x'']"
proof -
  have w: "wf_json (JObj [(''args'', JArr [JStr ''x''])])" by simp
  have e: "dict_get [(''args'', JArr [JStr ''x''])] ''env'' JNull = optional str_dict None"
    by (simp add: dict_get_def)
  have p: "dict_get [(''args'', JArr [JStr ''x''])] ''preopens'' JNull = optional str_dict None"
    by (simp add: dict_get_def)
  have a: "dict_get [(''args'', JArr [JStr ''x''])] ''args'' JNull = optional str_list (Some [''x''])"
    by (simp add: dict_get_def str_list_def)
  show ?thesis
    using guest_program_then_args[OF w e p a, of "''/t/a.wasm''" quiet_world] w
    by (simp add: flag_words_def dashed_args_def plain_args_def)
qed


section \<open>Where the statements of the specification fail\<close>

text \<open>
  C2 (as stated): the guest that prints an unexpected \<^verbatim>\<open>x\<close> and the runtime that cannot
  be started at all leave the same text in the report.
\<close>

theorem mismatch_reported_like_malfunction_counterexample:
  "outcome (test_wasmer chatty_world ''/t/a.wasm'' (JObj []) ''/tmp/tmpabc'') = Some (Inl AssertionError)
   \<and> outcome (test_wasmer broken_world ''/t/a.wasm'' (JObj []) ''/tmp/tmpabc'') = Some (Inl OSError)
   \<and> out (snd (snd (run_cell chatty_world ''/t/a.wasm'' ''/tmp/tmpabc'' (''wasmer'', Wasmer)
                       (JObj []) start)))
     = out (snd (snd (run_cell broken_world ''/t/a.wasm'' ''/tmp/tmpabc'' (''wasmer'', Wasmer)
                       (JObj []) start)))"
  by code_simp

text \<open>
  C3 (as stated): the run over the three modules ends at \<^verbatim>\<open>a.wasm\<close> with an uncaught
  \<^verbatim>\<open>IndexError\<close> and an empty report, although \<^verbatim>\<open>c.wasm\<close> has exactly one record and a
  run over it alone completes; and \<^verbatim>\<open>b.wasm\<close>, with two records, resolves to the first.
\<close>

theorem unresolved_module_ends_run_counterexample:
  "main matrix_world = (Raised IndexError, start)
   \<and> fst (for_inputs matrix_world [''target/wasm32-wasi/debug/c.wasm''] start) = Returned
   \<and> resolve_config matrix_world ''target/wasm32-wasi/debug/b.wasm''
       = Inr (JObj [(''exitCode'', JInt 1)])"
  by code_simp


text \<open>
  C9 (as stated): the deno adapter turns the empty record into one with \<^verbatim>\<open>env\<close> and
  \<^verbatim>\<open>args\<close>.
\<close>

theorem deno_mutates_record_counterexample:
  "config_after (test_deno quiet_world ''/t/a.wasm'' (JObj []) ''/tmp/tmpabc'')
     = JObj [(''env'', JObj []), (''args'', JArr [])]
   \<and> JObj [(''env'', JObj []), (''args'', JArr [])] \<noteq> JObj []"
  by code_simp

text \<open>
  C10 (as stated): the workspace of the case is \<^verbatim>\<open>/tmp/tmpabc\<close>; the deno adapter writes
  \<^verbatim>\<open>/home/u/wasi-test/.deno.ts\<close>, and the wasmedge adapter has the object written into
  the tree of the modules.
\<close>

theorem glue_file_outside_workspace_counterexample:
  "created (test_deno quiet_world ''/home/u/wasi-test/target/wasm32-wasi/debug/a.wasm''
             (JObj []) ''/tmp/tmpabc'') = [''.deno.ts'']
   \<and> abspath quiet_world ''.deno.ts'' = ''/home/u/wasi-test/.deno.ts''
   \<and> \<not> prefix ''/tmp/tmpabc/'' (abspath quiet_world ''.deno.ts'')
   \<and> created (test_wasmedge quiet_world ''/home/u/wasi-test/target/wasm32-wasi/debug/a.wasm''
                (JObj []) ''/tmp/tmpabc'')
       = [''/home/u/wasi-test/target/wasm32-wasi/debug/a.so'']
   \<and> \<not> prefix ''/tmp/tmpabc/'' ''/home/u/wasi-test/target/wasm32-wasi/debug/a.so''"
  by code_simp

text \<open>
  C6 (as stated): the command of the wasmedge adapter for \<^verbatim>\<open>/t/a.wasm\<close> names
  \<^verbatim>\<open>/t/a.so\<close>; the module itself is no word of it.
\<close>

theorem wasmedge_names_object_counterexample:
  "guest_cmd quiet_world Wasmedge ''/t/a.wasm'' [(''args'', JArr [JStr ''x''])]
     = Inr [''wasmedge'', ''/t/a.so'', ''x'']
   \<and> ''/t/a.wasm'' \<notin> set [''wasmedge'', ''/t/a.so'', ''x'']"
  by code_simp

end
